theory Spec2Isabelle
  imports Main "HOL-Library.AList"
begin

section \<open>JavaScript data\<close>

text \<open>
  The saved-places layer works on data that came out of \<^verbatim>\<open>JSON.parse\<close> and on the
  arguments its callers pass. A \<open>json\<close> value is what \<^verbatim>\<open>JSON.parse\<close> can return; a
  \<open>jsval\<close> is such a value or \<^verbatim>\<open>undefined\<close> (a missing property, a missing argument).

  A number is represented by the text \<^verbatim>\<open>String\<close> gives for it (\<^verbatim>\<open>5\<close>, \<^verbatim>\<open>-3.5\<close>,
  \<^verbatim>\<open>1e+21\<close>, \<^verbatim>\<open>NaN\<close>): the code uses numbers through that text, their truthiness and
  their equality only, and two numbers are the same value for \<^verbatim>\<open>Set\<close> and
  \<^verbatim>\<open>includes\<close> exactly when their texts are equal. A \<open>char\<close> is one UTF-16 code unit
  below 256. An object is the list of its own properties in the order
  \<^verbatim>\<open>Object.entries\<close> yields them; a new key is put last, which is where JavaScript puts
  every key that is not integer-like (emails and \<^verbatim>\<open>col-...\<close> ids never are). Every
  array or object inside a parsed value is a fresh reference, distinct from every other one.
  The built-in objects are taken as the engine made them at the start of every call.
\<close>

datatype json =
    JNull
  | JBool bool
  | JNum string
  | JStr string
  | JArr "json list"
  | JObj "(string \<times> json) list"

datatype jsval = Undefined | Val json

type_synonym jsobj = "(string \<times> json) list"

text \<open>What the code can throw: \<^verbatim>\<open>new Error(msg)\<close>, or the engine's \<^verbatim>\<open>TypeError\<close> (a
  property read on \<^verbatim>\<open>null\<close>/\<^verbatim>\<open>undefined\<close>, a call of something that is no function, a
  value that cannot be turned into a string).\<close>

datatype error = Error string | TypeError

text \<open>Truthiness (\<^verbatim>\<open>!x\<close>, \<^verbatim>\<open>a || b\<close>).\<close>

fun truthy_json :: "json \<Rightarrow> bool" where
  "truthy_json JNull = False"
| "truthy_json (JBool b) = b"
| "truthy_json (JNum n) = (n \<noteq> ''0'' \<and> n \<noteq> ''NaN'')"
| "truthy_json (JStr s) = (s \<noteq> [])"
| "truthy_json (JArr xs) = True"
| "truthy_json (JObj ps) = True"

fun truthy :: "jsval \<Rightarrow> bool" where
  "truthy Undefined = False"
| "truthy (Val j) = truthy_json j"

text \<open>\<^verbatim>\<open>String(x)\<close>, which is also how a value becomes a property key. An object is
  printed by the \<^verbatim>\<open>toString\<close> it inherits, as \<^verbatim>\<open>[object Object]\<close>; an object with an
  own property \<^verbatim>\<open>toString\<close> (no function, in parsed data) has nothing that prints it,
  and the conversion throws \<^verbatim>\<open>TypeError\<close>. An array is printed as its elements joined
  by commas, \<^verbatim>\<open>null\<close> as nothing, and throws if an element does.\<close>

fun String_throws :: "json \<Rightarrow> bool" where
  "String_throws (JObj ps) = (''toString'' \<in> set (map fst ps))"
| "String_throws (JArr xs) = list_ex String_throws xs"
| "String_throws j = False"

fun join_comma :: "string list \<Rightarrow> string" where
  "join_comma [] = []"
| "join_comma [s] = s"
| "join_comma (s # t # ss) = s @ CHR '','' # join_comma (t # ss)"

fun String_text :: "json \<Rightarrow> string" where
  "String_text JNull = ''null''"
| "String_text (JBool b) = (if b then ''true'' else ''false'')"
| "String_text (JNum n) = n"
| "String_text (JStr s) = s"
| "String_text (JArr xs) = join_comma (map (\<lambda>x. if x = JNull then [] else String_text x) xs)"
| "String_text (JObj ps) = ''[object Object]''"

definition String_json :: "json \<Rightarrow> error + string" where
  "String_json j = (if String_throws j then Inl TypeError else Inr (String_text j))"

fun String_js :: "jsval \<Rightarrow> error + string" where
  "String_js Undefined = Inr ''undefined''"
| "String_js (Val j) = String_json j"

text \<open>\<^verbatim>\<open>Array.isArray\<close> and \<^verbatim>\<open>typeof x === "object"\<close>.\<close>

fun isArray :: "jsval \<Rightarrow> bool" where
  "isArray (Val (JArr xs)) = True"
| "isArray v = False"

fun typeof_object :: "jsval \<Rightarrow> bool" where
  "typeof_object (Val JNull) = True"
| "typeof_object (Val (JArr xs)) = True"
| "typeof_object (Val (JObj ps)) = True"
| "typeof_object v = False"

text \<open>The property names the module reads with dot syntax. None of them is \<^verbatim>\<open>length\<close>, an
  index or a member of a built-in prototype, so a number, a boolean, a string or an array
  has none of them; reading one on \<^verbatim>\<open>null\<close> or \<^verbatim>\<open>undefined\<close> throws.\<close>

datatype field = F_email | F_items | F_collections | F_id | F_name | F_placeIds

fun field_name :: "field \<Rightarrow> string" where
  "field_name F_email = ''email''"
| "field_name F_items = ''items''"
| "field_name F_collections = ''collections''"
| "field_name F_id = ''id''"
| "field_name F_name = ''name''"
| "field_name F_placeIds = ''placeIds''"

fun get_field :: "jsval \<Rightarrow> field \<Rightarrow> error + jsval" where
  "get_field Undefined f = Inl TypeError"
| "get_field (Val JNull) f = Inl TypeError"
| "get_field (Val (JObj ps)) f =
     Inr (case map_of ps (field_name f) of None \<Rightarrow> Undefined | Some v \<Rightarrow> Val v)"
| "get_field (Val j) f = Inr Undefined"

text \<open>An object used as a dictionary. Its own properties: \<open>obj_get\<close> looks one up,
  \<open>obj_set\<close> defines one (a present key keeps its place, a new key goes last),
  \<open>obj_delete\<close> is \<^verbatim>\<open>delete o[k]\<close>.\<close>

definition obj_get :: "(string \<times> 'a) list \<Rightarrow> string \<Rightarrow> 'a option" where
  "obj_get ps k = map_of ps k"

definition obj_set :: "(string \<times> 'a) list \<Rightarrow> string \<Rightarrow> 'a \<Rightarrow> (string \<times> 'a) list" where
  "obj_set ps k v = AList.update k v ps"

definition obj_delete :: "(string \<times> 'a) list \<Rightarrow> string \<Rightarrow> (string \<times> 'a) list" where
  "obj_delete ps k = AList.delete k ps"

text \<open>The read \<^verbatim>\<open>o[k]\<close> with a computed key goes on to the prototype when the object has
  no own property \<open>k\<close>: under the names below it finds a member of
  \<^verbatim>\<open>Object.prototype\<close>, a function (for \<^verbatim>\<open>__proto__\<close> the prototype itself), which is
  truthy and has none of the properties the module reads.\<close>

definition Object_prototype_names :: "string list" where
  "Object_prototype_names =
     [''constructor'', ''__defineGetter__'', ''__defineSetter__'', ''hasOwnProperty'',
      ''__lookupGetter__'', ''__lookupSetter__'', ''isPrototypeOf'', ''propertyIsEnumerable'',
      ''toString'', ''valueOf'', ''__proto__'', ''toLocaleString'']"

datatype 'a member = Found 'a | Inherited | Absent

definition obj_member :: "(string \<times> 'a) list \<Rightarrow> string \<Rightarrow> 'a member" where
  "obj_member ps k =
     (case map_of ps k of
        Some v \<Rightarrow> Found v
      | None \<Rightarrow> if k \<in> set Object_prototype_names then Inherited else Absent)"

text \<open>The assignment \<^verbatim>\<open>o[k] = v\<close> defines or updates the own property \<open>k\<close>, except for
  the key \<^verbatim>\<open>__proto__\<close> on an object that has no own property of that name: there the
  inherited setter runs, the prototype of \<open>o\<close> is replaced and no property is made.\<close>

definition obj_assign :: "(string \<times> 'a) list \<Rightarrow> string \<Rightarrow> 'a \<Rightarrow> (string \<times> 'a) list" where
  "obj_assign ps k v =
     (if k = ''__proto__'' \<and> map_of ps k = None then ps else obj_set ps k v)"

text \<open>\<^verbatim>\<open>Object.entries\<close>: the properties of an object; index and element of an array.\<close>

definition digit_char :: "nat \<Rightarrow> char" where
  "digit_char d = char_of (48 + d)"

function show_nat :: "nat \<Rightarrow> string" where
  "show_nat n = (if n < 10 then [digit_char n] else show_nat (n div 10) @ [digit_char (n mod 10)])"
  by pat_completeness auto
termination
  by (relation "measure id") auto

fun index_entries :: "nat \<Rightarrow> json list \<Rightarrow> (string \<times> json) list" where
  "index_entries i [] = []"
| "index_entries i (x # xs) = (show_nat i, x) # index_entries (Suc i) xs"

fun Object_entries :: "json \<Rightarrow> (string \<times> json) list" where
  "Object_entries (JObj ps) = ps"
| "Object_entries (JArr xs) = index_entries 0 xs"
| "Object_entries j = []"

text \<open>\<^verbatim>\<open>new Set(xs)\<close> followed by \<^verbatim>\<open>Array.from\<close>: insertion order, where a primitive
  equal to an earlier one is dropped and an array or object (a reference of its own) never is.\<close>

fun is_ref :: "json \<Rightarrow> bool" where
  "is_ref (JArr xs) = True"
| "is_ref (JObj ps) = True"
| "is_ref j = False"

definition set_add :: "json list \<Rightarrow> json \<Rightarrow> json list" where
  "set_add acc x = (if \<not> is_ref x \<and> x \<in> set acc then acc else acc @ [x])"

definition Set_from :: "json list \<Rightarrow> json list" where
  "Set_from xs = foldl set_add [] xs"

text \<open>\<^verbatim>\<open>String.prototype.trim\<close>: white space and line terminators off both ends.\<close>

definition is_space :: "char \<Rightarrow> bool" where
  "is_space c = (of_char c \<in> {9, 10, 11, 12, 13, 32, 160 :: nat})"

definition trim :: "string \<Rightarrow> string" where
  "trim s = rev (dropWhile is_space (rev (dropWhile is_space s)))"

section \<open>The saved-places layer of utils/storage.js\<close>

text \<open>
  The module keeps everything in one \<^verbatim>\<open>localStorage\<close> item. An item is absent, or a text
  \<^verbatim>\<open>JSON.parse\<close> rejects (the empty text counts: \<^verbatim>\<open>parseJSON\<close> does not parse it), or
  the JSON text of an object; the module itself never writes anything else under its
  key, and \<^verbatim>\<open>JSON.parse (JSON.stringify o)\<close> gives \<open>o\<close> back for the data it writes.
  An item holding the JSON text of something that is no object (\<^verbatim>\<open>null\<close>, a number, a
  string, an array) is not among the worlds of this model.
  The world also records the \<^verbatim>\<open>seamline:saved-change\<close> events dispatched and the
  requests sent to the remote auth service.
\<close>

datatype raw_item = NoItem | Unparsable | ObjectText jsobj

datatype remote_call =
    AuthSignUp jsval jsval jsval
  | AuthSignIn jsval jsval
  | AuthSignOut

record world =
  localStorage :: "string \<Rightarrow> raw_item"
  events :: "jsval list"
  remote_calls :: "remote_call list"

record collection =
  col_id :: json
  col_name :: json
  placeIds :: "json list"

record saved_data =
  items :: "json list"
  collections :: "(string \<times> collection) list"

definition SAVED_KEY :: string where
  "SAVED_KEY = ''seamline_saved_places''"

definition COLLECTION_PREFIX :: string where
  "COLLECTION_PREFIX = ''col''"

definition parseJSON :: "raw_item \<Rightarrow> jsobj \<Rightarrow> jsobj" where
  "parseJSON raw fallback = (case raw of ObjectText ps \<Rightarrow> ps | _ \<Rightarrow> fallback)"

definition emitSavedChange :: "jsval \<Rightarrow> world \<Rightarrow> world" where
  "emitSavedChange email w = w\<lparr>events := events w @ [email]\<rparr>"

definition getSavedStore :: "world \<Rightarrow> jsobj" where
  "getSavedStore w = parseJSON (localStorage w SAVED_KEY) []"

definition setSavedStore :: "jsobj \<Rightarrow> world \<Rightarrow> world" where
  "setSavedStore store w = w\<lparr>localStorage := (localStorage w)(SAVED_KEY := ObjectText store)\<rparr>"

text \<open>The data object as it is serialised: property order is creation order.\<close>

definition json_of_collection :: "collection \<Rightarrow> json" where
  "json_of_collection c =
     JObj [(''id'', col_id c), (''name'', col_name c), (''placeIds'', JArr (placeIds c))]"

definition json_of_data :: "saved_data \<Rightarrow> json" where
  "json_of_data d =
     JObj [(''items'', JArr (items d)),
           (''collections'', JObj (map (\<lambda>(k, c). (k, json_of_collection c)) (collections d)))]"

definition or_else :: "jsval \<Rightarrow> json \<Rightarrow> json" where
  "or_else a b = (case a of Undefined \<Rightarrow> b | Val j \<Rightarrow> if truthy_json j then j else b)"

definition array_or_empty :: "jsval \<Rightarrow> json list" where
  "array_or_empty a = (case a of Val (JArr xs) \<Rightarrow> xs | _ \<Rightarrow> [])"

text \<open>The callback of \<^verbatim>\<open>normalizeCollections\<close>: the pair \<^verbatim>\<open>[normalized.id, normalized]\<close>.
  \<^verbatim>\<open>col.id\<close> throws when \<open>col\<close> is \<^verbatim>\<open>null\<close>.\<close>

definition normalizeCollection :: "string \<times> json \<Rightarrow> error + (json \<times> collection)" where
  "normalizeCollection p =
     (case p of (id0, col) \<Rightarrow>
       (case get_field (Val col) F_id of
          Inl e \<Rightarrow> Inl e
        | Inr cid \<Rightarrow>
           (case get_field (Val col) F_name of
              Inl e \<Rightarrow> Inl e
            | Inr cname \<Rightarrow>
               (case get_field (Val col) F_placeIds of
                  Inl e \<Rightarrow> Inl e
                | Inr pids \<Rightarrow>
                    let normalized = \<lparr>col_id = or_else cid (JStr id0),
                                      col_name = or_else cname (JStr ''Collection''),
                                      placeIds = array_or_empty pids\<rparr>
                    in Inr (col_id normalized, normalized)))))"

text \<open>\<^verbatim>\<open>Array.prototype.map\<close> with a callback that may throw: the first throw ends it.\<close>

fun map_throwing :: "('a \<Rightarrow> error + 'b) \<Rightarrow> 'a list \<Rightarrow> error + 'b list" where
  "map_throwing f [] = Inr []"
| "map_throwing f (x # xs) =
     (case f x of
        Inl e \<Rightarrow> Inl e
      | Inr y \<Rightarrow> (case map_throwing f xs of Inl e \<Rightarrow> Inl e | Inr ys \<Rightarrow> Inr (y # ys)))"

text \<open>\<^verbatim>\<open>Object.fromEntries\<close>: every key is turned into a string, which throws for a key
  that has no string form; each pair defines an own property, a later pair with the same
  key overwriting the value of the earlier one.\<close>

definition Object_fromEntries :: "(json \<times> 'a) list \<Rightarrow> error + (string \<times> 'a) list" where
  "Object_fromEntries ps =
     (if list_ex (\<lambda>(k, v). String_throws k) ps then Inl TypeError
      else Inr (foldl (\<lambda>acc (k, v). obj_set acc (String_text k) v) [] ps))"

definition normalizeCollections :: "jsval \<Rightarrow> error + (string \<times> collection) list" where
  "normalizeCollections cols =
     (if \<not> truthy cols \<or> \<not> typeof_object cols then Inr []
      else case cols of
             Undefined \<Rightarrow> Inr []
           | Val j \<Rightarrow>
               (case map_throwing normalizeCollection (Object_entries j) of
                  Inl e \<Rightarrow> Inl e
                | Inr ps \<Rightarrow> Object_fromEntries ps))"

definition normalizeEntry :: "jsval \<Rightarrow> error + saved_data" where
  "normalizeEntry entry =
     (if \<not> truthy entry then Inr \<lparr>items = [], collections = []\<rparr>
      else if isArray entry then Inr \<lparr>items = array_or_empty entry, collections = []\<rparr>
      else case get_field entry F_items of
             Inl e \<Rightarrow> Inl e
           | Inr its \<Rightarrow>
              (case get_field entry F_collections of
                 Inl e \<Rightarrow> Inl e
               | Inr cols \<Rightarrow>
                  (case normalizeCollections cols of
                     Inl e \<Rightarrow> Inl e
                   | Inr cs \<Rightarrow> Inr \<lparr>items = array_or_empty its, collections = cs\<rparr>)))"

text \<open>\<^verbatim>\<open>store[user.email]\<close>: the email, whatever it is, is turned into a property key.\<close>

definition user_key :: "jsval \<Rightarrow> error + string" where
  "user_key user = (case get_field user F_email of Inl e \<Rightarrow> Inl e | Inr em \<Rightarrow> String_js em)"

text \<open>\<^verbatim>\<open>normalizeEntry(store[user.email])\<close>. Under a key the store has no own property
  for, the read yields \<^verbatim>\<open>undefined\<close> or a member of \<^verbatim>\<open>Object.prototype\<close>; such a
  member is truthy, no array, and has neither \<^verbatim>\<open>items\<close> nor \<^verbatim>\<open>collections\<close>, so
  \<^verbatim>\<open>normalizeEntry\<close> returns the empty record for it.\<close>

definition getUserSavedData :: "jsval \<Rightarrow> world \<Rightarrow> error + saved_data" where
  "getUserSavedData user w =
     (if \<not> truthy user then Inr \<lparr>items = [], collections = []\<rparr>
      else let store = getSavedStore w in
           case user_key user of
             Inl e \<Rightarrow> Inl e
           | Inr k \<Rightarrow>
              (case obj_member store k of
                 Found entry \<Rightarrow> normalizeEntry (Val entry)
               | Absent \<Rightarrow> normalizeEntry Undefined
               | Inherited \<Rightarrow> Inr \<lparr>items = [], collections = []\<rparr>))"

definition setUserSavedData :: "jsval \<Rightarrow> saved_data \<Rightarrow> world \<Rightarrow> (error + unit) \<times> world" where
  "setUserSavedData user data w =
     (if \<not> truthy user then (Inr (), w)
      else let store = getSavedStore w in
           case get_field user F_email of
             Inl e \<Rightarrow> (Inl e, w)
           | Inr em \<Rightarrow>
              (case String_js em of
                 Inl e \<Rightarrow> (Inl e, w)
               | Inr k \<Rightarrow>
                  (Inr (), emitSavedChange em
                             (setSavedStore (obj_assign store k (json_of_data data)) w))))"

text \<open>\<^verbatim>\<open>Date.now().toString(36)\<close> and the five characters cut out of
  \<^verbatim>\<open>Math.random().toString(36)\<close> are inputs.\<close>

definition generateCollectionId :: "string \<Rightarrow> string \<Rightarrow> string" where
  "generateCollectionId stamp rnd = COLLECTION_PREFIX @ ''-'' @ stamp @ ''-'' @ rnd"

text \<open>The exported operations. Each takes the world and returns what the call returns or
  throws, with the world it leaves. After \<^verbatim>\<open>normalizeCollections\<close> every collection has an
  array \<^verbatim>\<open>placeIds\<close>, which is why the record field is a list and the default of
  \<^verbatim>\<open>collection.placeIds ?? []\<close> has no case of its own for a collection.\<close>

definition getSavedPlaceIds :: "jsval \<Rightarrow> world \<Rightarrow> error + json list" where
  "getSavedPlaceIds user w =
     (if \<not> truthy user then Inr []
      else case getUserSavedData user w of Inl e \<Rightarrow> Inl e | Inr data \<Rightarrow> Inr (items data))"

definition isPlaceSaved :: "jsval \<Rightarrow> jsval \<Rightarrow> world \<Rightarrow> error + bool" where
  "isPlaceSaved user placeId w =
     (if \<not> truthy user then Inr False
      else case getSavedPlaceIds user w of
             Inl e \<Rightarrow> Inl e
           | Inr ids \<Rightarrow>
              (case String_js placeId of
                 Inl e \<Rightarrow> Inl e
               | Inr pid \<Rightarrow> Inr (JStr pid \<in> set ids)))"

definition savePlace :: "jsval \<Rightarrow> jsval \<Rightarrow> world \<Rightarrow> (error + json list) \<times> world" where
  "savePlace user placeId w =
     (if \<not> truthy user then (Inl (Error ''Login required''), w)
      else case getUserSavedData user w of
             Inl e \<Rightarrow> (Inl e, w)
           | Inr data \<Rightarrow>
              (case String_js placeId of
                 Inl e \<Rightarrow> (Inl e, w)
               | Inr pid \<Rightarrow>
                  let ids = set_add (Set_from (items data)) (JStr pid);
                      data' = data\<lparr>items := ids\<rparr>
                  in case setUserSavedData user data' w of
                       (Inl e, w') \<Rightarrow> (Inl e, w')
                     | (Inr u, w') \<Rightarrow> (Inr (items data'), w')))"

definition removeSavedPlace :: "jsval \<Rightarrow> jsval \<Rightarrow> world \<Rightarrow> (error + json list) \<times> world" where
  "removeSavedPlace user placeId w =
     (if \<not> truthy user then (Inl (Error ''Login required''), w)
      else case String_js placeId of
             Inl e \<Rightarrow> (Inl e, w)
           | Inr pid \<Rightarrow>
              let targetId = JStr pid in
              case getUserSavedData user w of
                Inl e \<Rightarrow> (Inl e, w)
              | Inr data \<Rightarrow>
                  let data' = \<lparr>items = filter (\<lambda>i. i \<noteq> targetId) (items data),
                               collections =
                                 map (\<lambda>(k, c). (k, c\<lparr>placeIds := filter (\<lambda>i. i \<noteq> targetId) (placeIds c)\<rparr>))
                                   (collections data)\<rparr>
                  in case setUserSavedData user data' w of
                       (Inl e, w') \<Rightarrow> (Inl e, w')
                     | (Inr u, w') \<Rightarrow> (Inr (items data'), w'))"

definition getCollections :: "jsval \<Rightarrow> world \<Rightarrow> error + collection list" where
  "getCollections user w =
     (if \<not> truthy user then Inr []
      else case getUserSavedData user w of
             Inl e \<Rightarrow> Inl e
           | Inr data \<Rightarrow> Inr (map snd (collections data)))"

text \<open>\<^verbatim>\<open>name?.trim()\<close>: \<^verbatim>\<open>undefined\<close> for a missing name, the trimmed text for a string;
  any other value has no \<^verbatim>\<open>trim\<close> to call.\<close>

definition trim_opt :: "jsval \<Rightarrow> error + string option" where
  "trim_opt name =
     (case name of
        Undefined \<Rightarrow> Inr None
      | Val JNull \<Rightarrow> Inr None
      | Val (JStr s) \<Rightarrow> Inr (Some (trim s))
      | Val j \<Rightarrow> Inl TypeError)"

definition createCollection ::
  "jsval \<Rightarrow> jsval \<Rightarrow> string \<Rightarrow> string \<Rightarrow> world \<Rightarrow> (error + collection) \<times> world" where
  "createCollection user name stamp rnd w =
     (if \<not> truthy user then (Inl (Error ''Login required''), w)
      else case trim_opt name of
             Inl e \<Rightarrow> (Inl e, w)
           | Inr None \<Rightarrow> (Inl (Error ''Collection name is required.''), w)
           | Inr (Some trimmed) \<Rightarrow>
               if trimmed = [] then (Inl (Error ''Collection name is required.''), w)
               else case getUserSavedData user w of
                      Inl e \<Rightarrow> (Inl e, w)
                    | Inr data \<Rightarrow>
                        let id0 = generateCollectionId stamp rnd;
                            c = \<lparr>col_id = JStr id0, col_name = JStr trimmed, placeIds = []\<rparr>;
                            data' = data\<lparr>collections := obj_assign (collections data) id0 c\<rparr>
                        in case setUserSavedData user data' w of
                             (Inl e, w') \<Rightarrow> (Inl e, w')
                           | (Inr u, w') \<Rightarrow> (Inr c, w'))"

definition deleteCollection :: "jsval \<Rightarrow> jsval \<Rightarrow> world \<Rightarrow> (error + unit) \<times> world" where
  "deleteCollection user collectionId w =
     (if \<not> truthy user then (Inl (Error ''Login required''), w)
      else case getUserSavedData user w of
             Inl e \<Rightarrow> (Inl e, w)
           | Inr data \<Rightarrow>
              (case String_js collectionId of
                 Inl e \<Rightarrow> (Inl e, w)
               | Inr k \<Rightarrow>
                  let data' = data\<lparr>collections := obj_delete (collections data) k\<rparr>
                  in setUserSavedData user data' w))"

text \<open>What \<^verbatim>\<open>addPlaceToCollection\<close> returns: the collection, or, when the id is no
  collection's but the name of a member of \<^verbatim>\<open>Object.prototype\<close>, that built-in object,
  on which the call has put the \<^verbatim>\<open>placeIds\<close> given here. Such a member passes the test
  \<^verbatim>\<open>!collection\<close>; assigned to \<^verbatim>\<open>data.collections[collectionId]\<close> it is a function,
  which \<^verbatim>\<open>JSON.stringify\<close> leaves out (for \<^verbatim>\<open>__proto__\<close> no property is made), so the
  stored collections stay as they were. The \<^verbatim>\<open>placeIds\<close> left on the built-in object
  outlive the call; what they do to later calls on the same page is not followed here,
  where every call starts from the built-in objects as the engine made them.\<close>

datatype added = Collection collection | Builtin_object string "json list"

definition addPlaceToCollection ::
  "jsval \<Rightarrow> jsval \<Rightarrow> jsval \<Rightarrow> world \<Rightarrow> (error + added) \<times> world" where
  "addPlaceToCollection user collectionId placeId w =
     (if \<not> truthy user then (Inl (Error ''Login required''), w)
      else case getUserSavedData user w of
             Inl e \<Rightarrow> (Inl e, w)
           | Inr data \<Rightarrow>
              (case String_js collectionId of
                 Inl e \<Rightarrow> (Inl e, w)
               | Inr k \<Rightarrow>
                  (case obj_member (collections data) k of
                     Absent \<Rightarrow> (Inl (Error ''Collection not found.''), w)
                   | Found collection \<Rightarrow>
                      (case String_js placeId of
                         Inl e \<Rightarrow> (Inl e, w)
                       | Inr p \<Rightarrow>
                          let pid = JStr p;
                              items' = (if pid \<in> set (items data) then items data
                                        else items data @ [pid]);
                              ids = set_add (Set_from (placeIds collection)) pid;
                              collection' = collection\<lparr>placeIds := ids\<rparr>;
                              data' = \<lparr>items = items',
                                       collections = obj_assign (collections data) k collection'\<rparr>
                          in case setUserSavedData user data' w of
                               (Inl e, w') \<Rightarrow> (Inl e, w')
                             | (Inr u, w') \<Rightarrow> (Inr (Collection collection'), w'))
                   | Inherited \<Rightarrow>
                      (case String_js placeId of
                         Inl e \<Rightarrow> (Inl e, w)
                       | Inr p \<Rightarrow>
                          let pid = JStr p;
                              items' = (if pid \<in> set (items data) then items data
                                        else items data @ [pid]);
                              ids = set_add (Set_from []) pid;
                              data' = \<lparr>items = items', collections = collections data\<rparr>
                          in case setUserSavedData user data' w of
                               (Inl e, w') \<Rightarrow> (Inl e, w')
                             | (Inr u, w') \<Rightarrow> (Inr (Builtin_object k ids), w')))))"

text \<open>In \<^verbatim>\<open>removePlaceFromCollection\<close> the conversion \<^verbatim>\<open>String(placeId)\<close> stands in the
  callback of \<^verbatim>\<open>filter\<close>: it runs once for each element and not at all on an empty list.\<close>

definition removePlaceFromCollection ::
  "jsval \<Rightarrow> jsval \<Rightarrow> jsval \<Rightarrow> world \<Rightarrow> (error + unit) \<times> world" where
  "removePlaceFromCollection user collectionId placeId w =
     (if \<not> truthy user then (Inl (Error ''Login required''), w)
      else case getUserSavedData user w of
             Inl e \<Rightarrow> (Inl e, w)
           | Inr data \<Rightarrow>
              (case String_js collectionId of
                 Inl e \<Rightarrow> (Inl e, w)
               | Inr k \<Rightarrow>
                  (case obj_member (collections data) k of
                     Absent \<Rightarrow> (Inr (), w)
                   | Found collection \<Rightarrow>
                      if placeIds collection = []
                      then setUserSavedData user
                             (data\<lparr>collections := obj_assign (collections data) k collection\<rparr>) w
                      else
                       (case String_js placeId of
                          Inl e \<Rightarrow> (Inl e, w)
                        | Inr p \<Rightarrow>
                           let collection' =
                                 collection\<lparr>placeIds :=
                                   filter (\<lambda>i. i \<noteq> JStr p) (placeIds collection)\<rparr>;
                               data' = data\<lparr>collections :=
                                         obj_assign (collections data) k collection'\<rparr>
                           in setUserSavedData user data' w)
                   | Inherited \<Rightarrow> setUserSavedData user data w)))"

definition getCollectionPlaceIds :: "jsval \<Rightarrow> jsval \<Rightarrow> world \<Rightarrow> error + json list" where
  "getCollectionPlaceIds user collectionId w =
     (if \<not> truthy user then Inr []
      else case getUserSavedData user w of
             Inl e \<Rightarrow> Inl e
           | Inr data \<Rightarrow>
              (case String_js collectionId of
                 Inl e \<Rightarrow> Inl e
               | Inr k \<Rightarrow>
                  (case obj_member (collections data) k of
                     Found collection \<Rightarrow> Inr (placeIds collection)
                   | Inherited \<Rightarrow> Inr []
                   | Absent \<Rightarrow> Inr [])))"

definition isPlaceInCollection :: "jsval \<Rightarrow> jsval \<Rightarrow> jsval \<Rightarrow> world \<Rightarrow> error + bool" where
  "isPlaceInCollection user collectionId placeId w =
     (if \<not> truthy user then Inr False
      else case getCollectionPlaceIds user collectionId w of
             Inl e \<Rightarrow> Inl e
           | Inr ids \<Rightarrow>
              (case String_js placeId of
                 Inl e \<Rightarrow> Inl e
               | Inr p \<Rightarrow> Inr (JStr p \<in> set ids)))"

section \<open>The same layer in the module built on the remote auth service\<close>

text \<open>
  The second module gets its users from the remote auth service and has a saved-places
  layer of its own, which reads and writes \<^verbatim>\<open>localStorage\<close> as well. Its functions carry
  the suffix \<open>_remote\<close> here.
\<close>

definition SAVED_KEY_remote :: string where
  "SAVED_KEY_remote = ''seamline_saved_places''"

definition COLLECTION_PREFIX_remote :: string where
  "COLLECTION_PREFIX_remote = ''col''"

definition parseJSON_remote :: "raw_item \<Rightarrow> jsobj \<Rightarrow> jsobj" where
  "parseJSON_remote raw fallback = (case raw of ObjectText ps \<Rightarrow> ps | _ \<Rightarrow> fallback)"

definition emitSavedChange_remote :: "jsval \<Rightarrow> world \<Rightarrow> world" where
  "emitSavedChange_remote email w = w\<lparr>events := events w @ [email]\<rparr>"

definition getSavedStore_remote :: "world \<Rightarrow> jsobj" where
  "getSavedStore_remote w = parseJSON_remote (localStorage w SAVED_KEY_remote) []"

definition setSavedStore_remote :: "jsobj \<Rightarrow> world \<Rightarrow> world" where
  "setSavedStore_remote store w = w\<lparr>localStorage := (localStorage w)(SAVED_KEY_remote := ObjectText store)\<rparr>"

definition normalizeCollection_remote :: "string \<times> json \<Rightarrow> error + (json \<times> collection)" where
  "normalizeCollection_remote p =
     (case p of (id0, col) \<Rightarrow>
       (case get_field (Val col) F_id of
          Inl e \<Rightarrow> Inl e
        | Inr cid \<Rightarrow>
           (case get_field (Val col) F_name of
              Inl e \<Rightarrow> Inl e
            | Inr cname \<Rightarrow>
               (case get_field (Val col) F_placeIds of
                  Inl e \<Rightarrow> Inl e
                | Inr pids \<Rightarrow>
                    let normalized = \<lparr>col_id = or_else cid (JStr id0),
                                      col_name = or_else cname (JStr ''Collection''),
                                      placeIds = array_or_empty pids\<rparr>
                    in Inr (col_id normalized, normalized)))))"

definition normalizeCollections_remote :: "jsval \<Rightarrow> error + (string \<times> collection) list" where
  "normalizeCollections_remote cols =
     (if \<not> truthy cols \<or> \<not> typeof_object cols then Inr []
      else case cols of
             Undefined \<Rightarrow> Inr []
           | Val j \<Rightarrow>
               (case map_throwing normalizeCollection_remote (Object_entries j) of
                  Inl e \<Rightarrow> Inl e
                | Inr ps \<Rightarrow> Object_fromEntries ps))"

definition normalizeEntry_remote :: "jsval \<Rightarrow> error + saved_data" where
  "normalizeEntry_remote entry =
     (if \<not> truthy entry then Inr \<lparr>items = [], collections = []\<rparr>
      else if isArray entry then Inr \<lparr>items = array_or_empty entry, collections = []\<rparr>
      else case get_field entry F_items of
             Inl e \<Rightarrow> Inl e
           | Inr its \<Rightarrow>
              (case get_field entry F_collections of
                 Inl e \<Rightarrow> Inl e
               | Inr cols \<Rightarrow>
                  (case normalizeCollections_remote cols of
                     Inl e \<Rightarrow> Inl e
                   | Inr cs \<Rightarrow> Inr \<lparr>items = array_or_empty its, collections = cs\<rparr>)))"

definition getUserSavedData_remote :: "jsval \<Rightarrow> world \<Rightarrow> error + saved_data" where
  "getUserSavedData_remote user w =
     (if \<not> truthy user then Inr \<lparr>items = [], collections = []\<rparr>
      else let store = getSavedStore_remote w in
           case user_key user of
             Inl e \<Rightarrow> Inl e
           | Inr k \<Rightarrow>
              (case obj_member store k of
                 Found entry \<Rightarrow> normalizeEntry_remote (Val entry)
               | Absent \<Rightarrow> normalizeEntry_remote Undefined
               | Inherited \<Rightarrow> Inr \<lparr>items = [], collections = []\<rparr>))"

definition setUserSavedData_remote :: "jsval \<Rightarrow> saved_data \<Rightarrow> world \<Rightarrow> (error + unit) \<times> world" where
  "setUserSavedData_remote user data w =
     (if \<not> truthy user then (Inr (), w)
      else let store = getSavedStore_remote w in
           case get_field user F_email of
             Inl e \<Rightarrow> (Inl e, w)
           | Inr em \<Rightarrow>
              (case String_js em of
                 Inl e \<Rightarrow> (Inl e, w)
               | Inr k \<Rightarrow>
                  (Inr (), emitSavedChange_remote em
                             (setSavedStore_remote (obj_assign store k (json_of_data data)) w))))"

definition generateCollectionId_remote :: "string \<Rightarrow> string \<Rightarrow> string" where
  "generateCollectionId_remote stamp rnd = COLLECTION_PREFIX_remote @ ''-'' @ stamp @ ''-'' @ rnd"

definition getSavedPlaceIds_remote :: "jsval \<Rightarrow> world \<Rightarrow> error + json list" where
  "getSavedPlaceIds_remote user w =
     (if \<not> truthy user then Inr []
      else case getUserSavedData_remote user w of Inl e \<Rightarrow> Inl e | Inr data \<Rightarrow> Inr (items data))"

definition isPlaceSaved_remote :: "jsval \<Rightarrow> jsval \<Rightarrow> world \<Rightarrow> error + bool" where
  "isPlaceSaved_remote user placeId w =
     (if \<not> truthy user then Inr False
      else case getSavedPlaceIds_remote user w of
             Inl e \<Rightarrow> Inl e
           | Inr ids \<Rightarrow>
              (case String_js placeId of
                 Inl e \<Rightarrow> Inl e
               | Inr pid \<Rightarrow> Inr (JStr pid \<in> set ids)))"

definition savePlace_remote :: "jsval \<Rightarrow> jsval \<Rightarrow> world \<Rightarrow> (error + json list) \<times> world" where
  "savePlace_remote user placeId w =
     (if \<not> truthy user then (Inl (Error ''Login required''), w)
      else case getUserSavedData_remote user w of
             Inl e \<Rightarrow> (Inl e, w)
           | Inr data \<Rightarrow>
              (case String_js placeId of
                 Inl e \<Rightarrow> (Inl e, w)
               | Inr pid \<Rightarrow>
                  let ids = set_add (Set_from (items data)) (JStr pid);
                      data' = data\<lparr>items := ids\<rparr>
                  in case setUserSavedData_remote user data' w of
                       (Inl e, w') \<Rightarrow> (Inl e, w')
                     | (Inr u, w') \<Rightarrow> (Inr (items data'), w')))"

definition removeSavedPlace_remote :: "jsval \<Rightarrow> jsval \<Rightarrow> world \<Rightarrow> (error + json list) \<times> world" where
  "removeSavedPlace_remote user placeId w =
     (if \<not> truthy user then (Inl (Error ''Login required''), w)
      else case String_js placeId of
             Inl e \<Rightarrow> (Inl e, w)
           | Inr pid \<Rightarrow>
              let targetId = JStr pid in
              case getUserSavedData_remote user w of
                Inl e \<Rightarrow> (Inl e, w)
              | Inr data \<Rightarrow>
                  let data' = \<lparr>items = filter (\<lambda>i. i \<noteq> targetId) (items data),
                               collections =
                                 map (\<lambda>(k, c). (k, c\<lparr>placeIds := filter (\<lambda>i. i \<noteq> targetId) (placeIds c)\<rparr>))
                                   (collections data)\<rparr>
                  in case setUserSavedData_remote user data' w of
                       (Inl e, w') \<Rightarrow> (Inl e, w')
                     | (Inr u, w') \<Rightarrow> (Inr (items data'), w'))"

definition getCollections_remote :: "jsval \<Rightarrow> world \<Rightarrow> error + collection list" where
  "getCollections_remote user w =
     (if \<not> truthy user then Inr []
      else case getUserSavedData_remote user w of
             Inl e \<Rightarrow> Inl e
           | Inr data \<Rightarrow> Inr (map snd (collections data)))"

definition createCollection_remote ::
  "jsval \<Rightarrow> jsval \<Rightarrow> string \<Rightarrow> string \<Rightarrow> world \<Rightarrow> (error + collection) \<times> world" where
  "createCollection_remote user name stamp rnd w =
     (if \<not> truthy user then (Inl (Error ''Login required''), w)
      else case trim_opt name of
             Inl e \<Rightarrow> (Inl e, w)
           | Inr None \<Rightarrow> (Inl (Error ''Collection name is required.''), w)
           | Inr (Some trimmed) \<Rightarrow>
               if trimmed = [] then (Inl (Error ''Collection name is required.''), w)
               else case getUserSavedData_remote user w of
                      Inl e \<Rightarrow> (Inl e, w)
                    | Inr data \<Rightarrow>
                        let id0 = generateCollectionId_remote stamp rnd;
                            c = \<lparr>col_id = JStr id0, col_name = JStr trimmed, placeIds = []\<rparr>;
                            data' = data\<lparr>collections := obj_assign (collections data) id0 c\<rparr>
                        in case setUserSavedData_remote user data' w of
                             (Inl e, w') \<Rightarrow> (Inl e, w')
                           | (Inr u, w') \<Rightarrow> (Inr c, w'))"

definition deleteCollection_remote :: "jsval \<Rightarrow> jsval \<Rightarrow> world \<Rightarrow> (error + unit) \<times> world" where
  "deleteCollection_remote user collectionId w =
     (if \<not> truthy user then (Inl (Error ''Login required''), w)
      else case getUserSavedData_remote user w of
             Inl e \<Rightarrow> (Inl e, w)
           | Inr data \<Rightarrow>
              (case String_js collectionId of
                 Inl e \<Rightarrow> (Inl e, w)
               | Inr k \<Rightarrow>
                  let data' = data\<lparr>collections := obj_delete (collections data) k\<rparr>
                  in setUserSavedData_remote user data' w))"

definition addPlaceToCollection_remote ::
  "jsval \<Rightarrow> jsval \<Rightarrow> jsval \<Rightarrow> world \<Rightarrow> (error + added) \<times> world" where
  "addPlaceToCollection_remote user collectionId placeId w =
     (if \<not> truthy user then (Inl (Error ''Login required''), w)
      else case getUserSavedData_remote user w of
             Inl e \<Rightarrow> (Inl e, w)
           | Inr data \<Rightarrow>
              (case String_js collectionId of
                 Inl e \<Rightarrow> (Inl e, w)
               | Inr k \<Rightarrow>
                  (case obj_member (collections data) k of
                     Absent \<Rightarrow> (Inl (Error ''Collection not found.''), w)
                   | Found collection \<Rightarrow>
                      (case String_js placeId of
                         Inl e \<Rightarrow> (Inl e, w)
                       | Inr p \<Rightarrow>
                          let pid = JStr p;
                              items' = (if pid \<in> set (items data) then items data
                                        else items data @ [pid]);
                              ids = set_add (Set_from (placeIds collection)) pid;
                              collection' = collection\<lparr>placeIds := ids\<rparr>;
                              data' = \<lparr>items = items',
                                       collections = obj_assign (collections data) k collection'\<rparr>
                          in case setUserSavedData_remote user data' w of
                               (Inl e, w') \<Rightarrow> (Inl e, w')
                             | (Inr u, w') \<Rightarrow> (Inr (Collection collection'), w'))
                   | Inherited \<Rightarrow>
                      (case String_js placeId of
                         Inl e \<Rightarrow> (Inl e, w)
                       | Inr p \<Rightarrow>
                          let pid = JStr p;
                              items' = (if pid \<in> set (items data) then items data
                                        else items data @ [pid]);
                              ids = set_add (Set_from []) pid;
                              data' = \<lparr>items = items', collections = collections data\<rparr>
                          in case setUserSavedData_remote user data' w of
                               (Inl e, w') \<Rightarrow> (Inl e, w')
                             | (Inr u, w') \<Rightarrow> (Inr (Builtin_object k ids), w')))))"

definition removePlaceFromCollection_remote ::
  "jsval \<Rightarrow> jsval \<Rightarrow> jsval \<Rightarrow> world \<Rightarrow> (error + unit) \<times> world" where
  "removePlaceFromCollection_remote user collectionId placeId w =
     (if \<not> truthy user then (Inl (Error ''Login required''), w)
      else case getUserSavedData_remote user w of
             Inl e \<Rightarrow> (Inl e, w)
           | Inr data \<Rightarrow>
              (case String_js collectionId of
                 Inl e \<Rightarrow> (Inl e, w)
               | Inr k \<Rightarrow>
                  (case obj_member (collections data) k of
                     Absent \<Rightarrow> (Inr (), w)
                   | Found collection \<Rightarrow>
                      if placeIds collection = []
                      then setUserSavedData_remote user
                             (data\<lparr>collections := obj_assign (collections data) k collection\<rparr>) w
                      else
                       (case String_js placeId of
                          Inl e \<Rightarrow> (Inl e, w)
                        | Inr p \<Rightarrow>
                           let collection' =
                                 collection\<lparr>placeIds :=
                                   filter (\<lambda>i. i \<noteq> JStr p) (placeIds collection)\<rparr>;
                               data' = data\<lparr>collections :=
                                         obj_assign (collections data) k collection'\<rparr>
                           in setUserSavedData_remote user data' w)
                   | Inherited \<Rightarrow> setUserSavedData_remote user data w)))"

definition getCollectionPlaceIds_remote :: "jsval \<Rightarrow> jsval \<Rightarrow> world \<Rightarrow> error + json list" where
  "getCollectionPlaceIds_remote user collectionId w =
     (if \<not> truthy user then Inr []
      else case getUserSavedData_remote user w of
             Inl e \<Rightarrow> Inl e
           | Inr data \<Rightarrow>
              (case String_js collectionId of
                 Inl e \<Rightarrow> Inl e
               | Inr k \<Rightarrow>
                  (case obj_member (collections data) k of
                     Found collection \<Rightarrow> Inr (placeIds collection)
                   | Inherited \<Rightarrow> Inr []
                   | Absent \<Rightarrow> Inr [])))"

definition isPlaceInCollection_remote :: "jsval \<Rightarrow> jsval \<Rightarrow> jsval \<Rightarrow> world \<Rightarrow> error + bool" where
  "isPlaceInCollection_remote user collectionId placeId w =
     (if \<not> truthy user then Inr False
      else case getCollectionPlaceIds_remote user collectionId w of
             Inl e \<Rightarrow> Inl e
           | Inr ids \<Rightarrow>
              (case String_js placeId of
                 Inl e \<Rightarrow> Inl e
               | Inr p \<Rightarrow> Inr (JStr p \<in> set ids)))"

text \<open>The account functions of that module do go to the remote service. What is modelled is
  the synchronous part of each call: the check of the arguments and the request sent; the
  continuation of the promise runs later, on the answer.\<close>

definition signupUser_remote :: "jsval \<Rightarrow> jsval \<Rightarrow> jsval \<Rightarrow> world \<Rightarrow> (error + unit) \<times> world" where
  "signupUser_remote name email password w =
     (if \<not> truthy name \<or> \<not> truthy email \<or> \<not> truthy password
      then (Inl (Error ''All fields are required.''), w)
      else (Inr (), w\<lparr>remote_calls := remote_calls w @ [AuthSignUp email password name]\<rparr>))"

definition loginUser_remote :: "jsval \<Rightarrow> jsval \<Rightarrow> world \<Rightarrow> (error + unit) \<times> world" where
  "loginUser_remote email password w =
     (if \<not> truthy email \<or> \<not> truthy password
      then (Inl (Error ''Email and password are required.''), w)
      else (Inr (), w\<lparr>remote_calls := remote_calls w @ [AuthSignIn email password]\<rparr>))"

definition logoutUser_remote :: "world \<Rightarrow> world" where
  "logoutUser_remote w = w\<lparr>remote_calls := remote_calls w @ [AuthSignOut]\<rparr>"

section \<open>The sanitizer's escapeHtml\<close>

text \<open>\<^verbatim>\<open>s.replace(/c/g, r)\<close> for a single character \<open>c\<close>: every occurrence becomes \<open>r\<close>.\<close>

definition replace_all :: "char \<Rightarrow> string \<Rightarrow> string \<Rightarrow> string" where
  "replace_all c r s = concat (map (\<lambda>x. if x = c then r else [x]) s)"

text \<open>The chain of replacements of \<^verbatim>\<open>escapeHtml\<close>, on the text.\<close>

definition escape_pipeline :: "string \<Rightarrow> string" where
  "escape_pipeline s =
     replace_all (CHR ''/'') ''&#x2F;''
       (replace_all (CHR 0x27) ''&#039;''
         (replace_all (CHR 0x22) ''&quot;''
           (replace_all (CHR ''>'') ''&gt;''
             (replace_all (CHR ''<'') ''&lt;''
               (replace_all (CHR ''&'') ''&amp;'' s)))))"

definition escapeHtml :: "jsval \<Rightarrow> error + string" where
  "escapeHtml unsafe =
     (if unsafe = Val JNull \<or> unsafe = Undefined then Inr []
      else case String_js unsafe of
             Inl e \<Rightarrow> Inl e
           | Inr s \<Rightarrow>
               Inr (replace_all (CHR ''/'') ''&#x2F;''
                     (replace_all (CHR 0x27) ''&#039;''
                       (replace_all (CHR 0x22) ''&quot;''
                         (replace_all (CHR ''>'') ''&gt;''
                           (replace_all (CHR ''<'') ''&lt;''
                             (replace_all (CHR ''&'') ''&amp;'' s)))))))"

text \<open>What the escaping is meant to do to one character of the input.\<close>

definition html_entity :: "char \<Rightarrow> string" where
  "html_entity c =
     (if c = CHR ''&'' then ''&amp;''
      else if c = CHR ''<'' then ''&lt;''
      else if c = CHR ''>'' then ''&gt;''
      else if c = CHR 0x22 then ''&quot;''
      else if c = CHR 0x27 then ''&#039;''
      else if c = CHR ''/'' then ''&#x2F;''
      else [c])"

section \<open>Example data\<close>

text \<open>A browser with nothing stored, a user as the local module returns it and one as the
  remote module does, and a store in which the first has two saved places and one
  collection and the second a legacy entry, a bare array.\<close>

definition world0 :: world where
  "world0 = \<lparr>localStorage = (\<lambda>k. NoItem), events = [], remote_calls = []\<rparr>"

definition alice :: jsval where
  "alice = Val (JObj [(''name'', JStr ''Alice''), (''email'', JStr ''alice@example.org'')])"

definition bob :: jsval where
  "bob = Val (JObj [(''id'', JStr ''user-2''), (''name'', JStr ''Bob''),
                    (''email'', JStr ''bob@example.org'')])"

definition silk :: collection where
  "silk = \<lparr>col_id = JStr ''col-a-b'', col_name = JStr ''Silk'', placeIds = [JStr ''7'']\<rparr>"

definition world1 :: world where
  "world1 = world0\<lparr>localStorage := (localStorage world0)
     (SAVED_KEY := ObjectText
        [(''alice@example.org'',
          json_of_data \<lparr>items = [JStr ''5'', JStr ''7''], collections = [(''col-a-b'', silk)]\<rparr>),
         (''bob@example.org'', JArr [JStr ''3''])])\<rparr>"




section \<open>Shapes and invariants\<close>

text \<open>What \<^verbatim>\<open>normalizeCollections\<close> establishes for a collection stored under key \<open>k\<close>:
  the key is the string form of its id, the id is truthy or the empty string, the name is
  truthy.\<close>

definition good_collection :: "string \<times> collection \<Rightarrow> bool" where
  "good_collection p =
     (case p of (k, c) \<Rightarrow>
        String_json (col_id c) = Inr k
        \<and> (truthy_json (col_id c) \<or> col_id c = JStr [])
        \<and> truthy_json (col_name c))"

definition normal_data :: "saved_data \<Rightarrow> bool" where
  "normal_data d = (distinct (map fst (collections d)) \<and> list_all good_collection (collections d))"

text \<open>A stored entry that \<^verbatim>\<open>normalizeEntry\<close> can take: no value of \<^verbatim>\<open>collections\<close> is
  \<^verbatim>\<open>null\<close>, and the id each gets (its own truthy \<^verbatim>\<open>id\<close>, else its key) has a string
  form.\<close>

definition given_id :: "string \<times> json \<Rightarrow> json" where
  "given_id p =
     (case p of (k, col) \<Rightarrow>
        or_else (case get_field (Val col) F_id of Inl e \<Rightarrow> Undefined | Inr v \<Rightarrow> v) (JStr k))"


text \<open>Every collection lists saved places only.\<close>

definition subset_inv :: "saved_data \<Rightarrow> bool" where
  "subset_inv d = list_all (\<lambda>(k, c). set (placeIds c) \<subseteq> set (items d)) (collections d)"

definition user_inv :: "jsval \<Rightarrow> world \<Rightarrow> bool" where
  "user_inv user w = (case getUserSavedData user w of Inl e \<Rightarrow> True | Inr d \<Rightarrow> subset_inv d)"


text \<open>The assignment \<^verbatim>\<open>store[key] = data\<close> makes or updates an own property.\<close>

definition takes_effect :: "(string \<times> 'a) list \<Rightarrow> string \<Rightarrow> bool" where
  "takes_effect ps k = (k \<noteq> ''__proto__'' \<or> map_of ps k \<noteq> None)"

section \<open>Properties\<close>

text \<open>
  C9. Without a logged-in user (any falsy \<open>user\<close>) the six mutating operations throw
  \<^verbatim>\<open>Error("Login required")\<close> and leave the world, the persisted store included, as it
  was; \<^verbatim>\<open>getSavedPlaceIds\<close>, \<^verbatim>\<open>getCollections\<close> and \<^verbatim>\<open>getCollectionPlaceIds\<close> return
  the empty array and \<^verbatim>\<open>isPlaceSaved\<close>, \<^verbatim>\<open>isPlaceInCollection\<close> return false, none of
  them throwing.
\<close>

theorem no_user_fails_closed:
  assumes "\<not> truthy user"
  shows "savePlace user placeId w = (Inl (Error ''Login required''), w)
       \<and> removeSavedPlace user placeId w = (Inl (Error ''Login required''), w)
       \<and> createCollection user name stamp rnd w = (Inl (Error ''Login required''), w)
       \<and> deleteCollection user collectionId w = (Inl (Error ''Login required''), w)
       \<and> addPlaceToCollection user collectionId placeId w = (Inl (Error ''Login required''), w)
       \<and> removePlaceFromCollection user collectionId placeId w = (Inl (Error ''Login required''), w)
       \<and> getSavedPlaceIds user w = Inr []
       \<and> getCollections user w = Inr []
       \<and> getCollectionPlaceIds user collectionId w = Inr []
       \<and> isPlaceSaved user placeId w = Inr False
       \<and> isPlaceInCollection user collectionId placeId w = Inr False"
  using assms
  by (simp add: savePlace_def removeSavedPlace_def createCollection_def deleteCollection_def
      addPlaceToCollection_def removePlaceFromCollection_def getSavedPlaceIds_def
      getCollections_def getCollectionPlaceIds_def isPlaceSaved_def isPlaceInCollection_def)

theorem no_user_fails_closed_witness:
  "\<not> truthy (Val JNull)
   \<and> savePlace (Val JNull) (Val (JNum ''5'')) world1 = (Inl (Error ''Login required''), world1)
   \<and> removeSavedPlace Undefined (Val (JNum ''5'')) world1 = (Inl (Error ''Login required''), world1)
   \<and> getSavedPlaceIds (Val (JStr [])) world1 = Inr []
   \<and> isPlaceSaved (Val (JNum ''0'')) (Val (JNum ''5'')) world1 = Inr False"
  using no_user_fails_closed [of "Val JNull" "Val (JNum ''5'')" world1]
        no_user_fails_closed [of Undefined "Val (JNum ''5'')" world1]
        no_user_fails_closed [of "Val (JStr [])" "Val (JNum ''5'')" world1]
        no_user_fails_closed [of "Val (JNum ''0'')" "Val (JNum ''5'')" world1]
  by simp

subsection \<open>Escaping\<close>

lemma replace_all_append:
  "replace_all c r (a @ b) = replace_all c r a @ replace_all c r b"
  by (simp add: replace_all_def)

lemma escape_pipeline_append:
  "escape_pipeline (a @ b) = escape_pipeline a @ escape_pipeline b"
  by (simp add: escape_pipeline_def replace_all_append)

lemma escape_pipeline_char: "escape_pipeline [x] = html_entity x"
  by (simp add: escape_pipeline_def replace_all_def html_entity_def)

lemma escape_pipeline_Nil: "escape_pipeline [] = []"
  by (simp add: escape_pipeline_def replace_all_def)

lemma escape_pipeline_entities: "escape_pipeline s = concat (map html_entity s)"
proof (induction s)
  case Nil
  show ?case by (simp add: escape_pipeline_Nil)
next
  case (Cons x s)
  have "escape_pipeline (x # s) = escape_pipeline [x] @ escape_pipeline s"
    using escape_pipeline_append [of "[x]" s] by simp
  then show ?case by (simp add: Cons.IH escape_pipeline_char)
qed

lemma html_entity_clean:
  "set (html_entity c) \<inter> {CHR ''<'', CHR ''>'', CHR 0x22, CHR 0x27, CHR ''/''} = {}"
  by (simp add: html_entity_def)

lemma entities_clean:
  "set (concat (map html_entity s)) \<inter> {CHR ''<'', CHR ''>'', CHR 0x22, CHR 0x27, CHR ''/''} = {}"
proof (induction s)
  case Nil
  show ?case by simp
next
  case (Cons x s)
  show ?case using html_entity_clean [of x] Cons.IH by (simp add: Int_Un_distrib2)
qed

lemma escapeHtml_pipeline:
  "escapeHtml unsafe =
     (if unsafe = Val JNull \<or> unsafe = Undefined then Inr []
      else case String_js unsafe of Inl e \<Rightarrow> Inl e | Inr s \<Rightarrow> Inr (escape_pipeline s))"
  unfolding escapeHtml_def escape_pipeline_def by (rule refl)

text \<open>
  C8. For every input string \<open>s\<close>, \<^verbatim>\<open>escapeHtml\<close> returns a text that holds none of the
  characters \<open><\<close>, \<open>>\<close>, double quote, single quote and \<open>/\<close>: it is \<open>s\<close> with every
  character replaced on its own, so that each \<open>&\<close> of the input, and no other character,
  becomes \<open>&amp;\<close>. For \<^verbatim>\<open>null\<close> and \<^verbatim>\<open>undefined\<close> it is the empty text. For any other
  input it is the same replacement on the text \<^verbatim>\<open>String\<close> makes of the input, and where
  \<^verbatim>\<open>String\<close> throws, that error; whatever text it returns holds none of the five
  characters.
\<close>

theorem escapeHtml_neutralises:
  "escapeHtml (Val (JStr s)) = Inr (concat (map html_entity s))
   \<and> set (concat (map html_entity s)) \<inter> {CHR ''<'', CHR ''>'', CHR 0x22, CHR 0x27, CHR ''/''} = {}
   \<and> escapeHtml unsafe =
       (if unsafe = Val JNull \<or> unsafe = Undefined then Inr []
        else case String_js unsafe of
               Inl e \<Rightarrow> Inl e
             | Inr t \<Rightarrow> Inr (concat (map html_entity t)))
   \<and> (case escapeHtml unsafe of
         Inl e \<Rightarrow> String_js unsafe = Inl e
       | Inr t \<Rightarrow> set t \<inter> {CHR ''<'', CHR ''>'', CHR 0x22, CHR 0x27, CHR ''/''} = {})"
proof -
  have a: "escapeHtml (Val (JStr s)) = Inr (concat (map html_entity s))"
    by (simp add: escapeHtml_pipeline String_json_def escape_pipeline_entities)
  have b: "escapeHtml unsafe =
       (if unsafe = Val JNull \<or> unsafe = Undefined then Inr []
        else case String_js unsafe of
               Inl e \<Rightarrow> Inl e
             | Inr t \<Rightarrow> Inr (concat (map html_entity t)))"
    by (simp add: escapeHtml_pipeline escape_pipeline_entities split: sum.splits)
  have c: "(case escapeHtml unsafe of
         Inl e \<Rightarrow> String_js unsafe = Inl e
       | Inr t \<Rightarrow> set t \<inter> {CHR ''<'', CHR ''>'', CHR 0x22, CHR 0x27, CHR ''/''} = {})"
    unfolding b using entities_clean by (simp split: sum.splits)
  show ?thesis using a b c entities_clean [of s] by blast
qed

subsection \<open>Normalisation\<close>

lemma collection_eta:
  "\<lparr>col_id = col_id c, col_name = col_name c, placeIds = placeIds c\<rparr> = (c::collection)"
  by simp

lemma String_json_Inr:
  "String_json j = Inr k \<longleftrightarrow> \<not> String_throws j \<and> String_text j = k"
  by (simp add: String_json_def)

lemma normalizeCollection_ok:
  assumes "col \<noteq> JNull"
  shows "\<exists>c. normalizeCollection (k, col) = Inr (col_id c, c)
             \<and> col_id c = given_id (k, col)
             \<and> (truthy_json (col_id c) \<or> col_id c = JStr [])
             \<and> truthy_json (col_name c)"
  using assms
  by (cases col) (auto simp: normalizeCollection_def or_else_def given_id_def Let_def
      split: option.splits)

lemma normalizeCollection_Inr:
  assumes "normalizeCollection p = Inr (i, c)"
  shows "i = col_id c \<and> col_id c = given_id p
         \<and> (truthy_json (col_id c) \<or> col_id c = JStr []) \<and> truthy_json (col_name c)"
proof -
  obtain k col where p: "p = (k, col)" by (cases p)
  have "col \<noteq> JNull" using assms by (auto simp: p normalizeCollection_def)
  from normalizeCollection_ok [OF this, of k] assms show ?thesis by (auto simp: p)
qed

lemma normalizeCollection_roundtrip:
  assumes "good_collection (k, c)"
  shows "normalizeCollection (k, json_of_collection c) = Inr (col_id c, c)"
  using assms
  by (auto simp: normalizeCollection_def json_of_collection_def or_else_def good_collection_def
      array_or_empty_def Let_def String_json_Inr)

lemma map_throwing_Inr:
  "map_throwing f xs = Inr ys \<Longrightarrow> map f xs = map Inr ys"
proof (induction xs arbitrary: ys)
  case Nil
  then show ?case by auto
next
  case (Cons x xs)
  then show ?case
    by (auto split: sum.splits)
qed

lemma set_update_cases:
  "p \<in> set (AList.update k v al) \<Longrightarrow> p = (k, v) \<or> p \<in> set al"
  by (induction al) (auto split: if_splits)


lemma map_throwing_set:
  assumes "map_throwing f xs = Inr ys" "y \<in> set ys"
  shows "\<exists>x \<in> set xs. f x = Inr y"
proof -
  have "map f xs = map Inr ys" using assms(1) by (rule map_throwing_Inr)
  then have "Inr y \<in> set (map f xs)" using assms(2) by simp
  then show ?thesis by auto
qed

lemma fromEntries_foldl_good:
  assumes "list_all good_collection acc" "distinct (map fst acc)"
    and "list_all (\<lambda>(i, c). i = col_id c \<and> good_collection (String_text (col_id c), c)) ps"
  shows "list_all good_collection (foldl (\<lambda>acc (k, v). obj_set acc (String_text k) v) acc ps)
       \<and> distinct (map fst (foldl (\<lambda>acc (k, v). obj_set acc (String_text k) v) acc ps))"
  using assms
proof (induction ps arbitrary: acc)
  case Nil
  then show ?case by simp
next
  case (Cons p ps)
  obtain i c where p: "p = (i, c)" by (cases p)
  have g: "i = col_id c" "good_collection (String_text (col_id c), c)"
    using Cons.prems(3) by (auto simp: p)
  have a: "list_all good_collection (obj_set acc (String_text i) c)"
    using Cons.prems(1) g
    by (auto simp: obj_set_def list_all_iff dest!: set_update_cases)
  have b: "distinct (map fst (obj_set acc (String_text i) c))"
    using Cons.prems(2) by (simp add: obj_set_def distinct_update)
  have c: "list_all (\<lambda>(i, c). i = col_id c \<and> good_collection (String_text (col_id c), c)) ps"
    using Cons.prems(3) by simp
  show ?case
    using Cons.IH [OF a b c] by (simp add: p)
qed

lemma fromEntries_good:
  assumes "list_all (\<lambda>(i, c). i = col_id c \<and> good_collection (String_text (col_id c), c)) ps"
    and "Object_fromEntries ps = Inr cs"
  shows "list_all good_collection cs \<and> distinct (map fst cs)"
proof -
  have "cs = foldl (\<lambda>acc (k, v). obj_set acc (String_text k) v) [] ps"
    using assms(2) by (auto simp: Object_fromEntries_def split: if_splits)
  then show ?thesis
    using fromEntries_foldl_good [of "[]" ps] assms(1) by simp
qed

lemma update_fresh: "k \<notin> fst ` set al \<Longrightarrow> AList.update k v al = al @ [(k, v)]"
  by (induction al) auto

lemma fromEntries_foldl_distinct:
  assumes "distinct (map fst (acc @ cs))" "list_all good_collection cs"
  shows "foldl (\<lambda>acc (k, v). obj_set acc (String_text k) v) acc (map (\<lambda>(k, c). (col_id c, c)) cs)
         = acc @ cs"
  using assms
proof (induction cs arbitrary: acc)
  case Nil
  show ?case by simp
next
  case (Cons p cs)
  obtain k c where p: "p = (k, c)" by (cases p)
  have k: "k = String_text (col_id c)"
    using Cons.prems(2) by (simp add: p good_collection_def String_json_Inr)
  have fresh: "k \<notin> fst ` set acc" using Cons.prems(1) by (auto simp: p)
  have step: "obj_set acc (String_text (col_id c)) c = acc @ [(k, c)]"
    using fresh by (simp add: obj_set_def update_fresh k)
  have d: "distinct (map fst ((acc @ [(k, c)]) @ cs))" using Cons.prems(1) by (simp add: p)
  have g: "list_all good_collection cs" using Cons.prems(2) by simp
  show ?case using Cons.IH [OF d g] by (simp add: p step)
qed

lemma fromEntries_roundtrip:
  assumes "distinct (map fst cs)" "list_all good_collection cs"
  shows "Object_fromEntries (map (\<lambda>(k, c). (col_id c, c)) cs) = Inr cs"
proof -
  have "\<not> list_ex (\<lambda>(k, v). String_throws k) (map (\<lambda>(k, c). (col_id c, c)) cs)"
    using assms(2) by (auto simp: list_ex_iff list_all_iff good_collection_def String_json_Inr)
  then show ?thesis
    unfolding Object_fromEntries_def
    using fromEntries_foldl_distinct [of "[]" cs] assms by simp
qed

lemma map_throwing_roundtrip:
  assumes "list_all good_collection cs"
  shows "map_throwing normalizeCollection (map (\<lambda>(k, c). (k, json_of_collection c)) cs)
         = Inr (map (\<lambda>(k, c). (col_id c, c)) cs)"
  using assms
proof (induction cs)
  case Nil
  show ?case by simp
next
  case (Cons p cs)
  obtain k c where p: "p = (k, c)" by (cases p)
  have "good_collection (k, c)" using Cons.prems by (simp add: p)
  from normalizeCollection_roundtrip [OF this] Cons show ?case by (simp add: p)
qed

lemma normalizeCollections_good:
  assumes "normalizeCollections cols = Inr cs"
  shows "list_all good_collection cs \<and> distinct (map fst cs)"
proof (cases "\<not> truthy cols \<or> \<not> typeof_object cols")
  case True
  then show ?thesis using assms by (auto simp: normalizeCollections_def)
next
  case False
  then obtain j where j: "cols = Val j" by (cases cols) auto
  from assms False obtain ps where ps: "map_throwing normalizeCollection (Object_entries j) = Inr ps"
    and cs: "Object_fromEntries ps = Inr cs"
    by (auto simp: normalizeCollections_def j split: sum.splits)
  have nt: "\<not> list_ex (\<lambda>(k, v). String_throws k) ps"
    using cs by (auto simp: Object_fromEntries_def split: if_splits)
  have "\<And>i c. (i, c) \<in> set ps \<Longrightarrow> i = col_id c \<and> good_collection (String_text (col_id c), c)"
  proof -
    fix i c assume m: "(i, c) \<in> set ps"
    from map_throwing_set [OF ps m] obtain p where "normalizeCollection p = Inr (i, c)" by blast
    from normalizeCollection_Inr [OF this]
    have f: "i = col_id c" "truthy_json (col_id c) \<or> col_id c = JStr []" "truthy_json (col_name c)"
      by auto
    have "\<not> String_throws i" using nt m by (auto simp: list_ex_iff)
    then show "i = col_id c \<and> good_collection (String_text (col_id c), c)"
      using f by (auto simp: good_collection_def String_json_Inr)
  qed
  then have "list_all (\<lambda>(i, c). i = col_id c \<and> good_collection (String_text (col_id c), c)) ps"
    unfolding list_all_iff by blast
  from fromEntries_good [OF this cs] show ?thesis .
qed

lemma normalizeCollections_roundtrip:
  assumes "distinct (map fst cs)" "list_all good_collection cs"
  shows "normalizeCollections (Val (JObj (map (\<lambda>(k, c). (k, json_of_collection c)) cs))) = Inr cs"
  using assms
  by (simp add: normalizeCollections_def map_throwing_roundtrip fromEntries_roundtrip)

lemma normalizeEntry_normal:
  assumes "normalizeEntry entry = Inr d"
  shows "normal_data d"
  using assms normalizeCollections_good
  by (auto simp: normalizeEntry_def normal_data_def split: if_splits sum.splits)

lemma data_eta: "\<lparr>items = items d, collections = collections d\<rparr> = (d::saved_data)"
  by simp

lemma normalizeEntry_roundtrip:
  assumes "normal_data d"
  shows "normalizeEntry (Val (json_of_data d)) = Inr d"
  using assms normalizeCollections_roundtrip [of "collections d"]
  by (simp add: normalizeEntry_def json_of_data_def normal_data_def array_or_empty_def)






subsection \<open>Reading and writing the store\<close>



lemma readable_key:
  assumes "truthy u" "getUserSavedData u w = Inr d"
  shows "\<exists>k. user_key u = Inr k"
  using assms by (cases "user_key u") (auto simp: getUserSavedData_def)

lemma setUserSavedData_keyed:
  assumes "truthy user" "user_key user = Inr k"
  shows "\<exists>em. setUserSavedData user d w =
       (Inr (), emitSavedChange em (setSavedStore (obj_assign (getSavedStore w) k (json_of_data d)) w))"
  using assms
  by (auto simp: setUserSavedData_def user_key_def split: sum.splits)

lemma setUserSavedData_effect:
  "snd (setUserSavedData u d w) = w
   \<or> (\<exists>k em. truthy u \<and> user_key u = Inr k \<and> snd (setUserSavedData u d w) =
          emitSavedChange em (setSavedStore (obj_assign (getSavedStore w) k (json_of_data d)) w))"
  by (auto simp: setUserSavedData_def user_key_def split: sum.splits)

lemma store_after_set:
  assumes "truthy user" "user_key user = Inr k"
  shows "fst (setUserSavedData user d w) = Inr ()"
    and "getSavedStore (snd (setUserSavedData user d w)) = obj_assign (getSavedStore w) k (json_of_data d)"
    and "remote_calls (snd (setUserSavedData user d w)) = remote_calls w"
    and "k' \<noteq> SAVED_KEY \<Longrightarrow> localStorage (snd (setUserSavedData user d w)) k' = localStorage w k'"
  using setUserSavedData_keyed [OF assms, of d w]
  by (auto simp: getSavedStore_def parseJSON_def emitSavedChange_def setSavedStore_def)



lemma obj_member_set:
  "obj_member (obj_set ps k v) k' = (if k' = k then Found v else obj_member ps k')"
  by (simp add: obj_member_def obj_set_def update_conv')

lemma obj_member_assign:
  "obj_member (obj_assign ps k v) k' =
     (if k' = k \<and> takes_effect ps k then Found v else obj_member ps k')"
  by (auto simp: obj_assign_def takes_effect_def obj_member_set)


lemma obj_assign_found:
  "obj_member ps k = Found c \<Longrightarrow> obj_assign ps k v = obj_set ps k v"
  by (auto simp: obj_assign_def obj_member_def split: option.splits if_splits)

lemma obj_member_Found: "obj_member ps k = Found c \<longleftrightarrow> obj_get ps k = Some c"
  by (auto simp: obj_member_def obj_get_def split: option.splits)

lemma read_after_write:
  assumes "truthy user" "user_key user = Inr k"
  shows "getUserSavedData v (snd (setUserSavedData user d w)) =
     (if truthy v \<and> user_key v = Inr k \<and> takes_effect (getSavedStore w) k
      then normalizeEntry (Val (json_of_data d))
      else getUserSavedData v w)"
proof (cases "truthy v")
  case False
  then show ?thesis by (simp add: getUserSavedData_def)
next
  case True
  show ?thesis
  proof (cases "user_key v")
    case (Inl e)
    then show ?thesis using True by (simp add: getUserSavedData_def)
  next
    case (Inr k')
    show ?thesis
      using True Inr store_after_set(2) [OF assms, of d w]
      by (simp add: getUserSavedData_def obj_member_assign)
  qed
qed



subsection \<open>Sets of ids\<close>

lemma set_add_set: "set (set_add acc x) = insert x (set acc)"
  by (auto simp: set_add_def)

lemma foldl_set_add_set: "set (foldl set_add acc xs) = set acc \<union> set xs"
  by (induction xs arbitrary: acc) (auto simp: set_add_set)

lemma set_Set_from: "set (Set_from xs) = set xs"
  by (simp add: Set_from_def foldl_set_add_set)











lemma getUserSavedData_normal:
  assumes "getUserSavedData u w = Inr d"
  shows "normal_data d"
proof (cases "truthy u")
  case False
  then show ?thesis using assms by (auto simp: getUserSavedData_def normal_data_def)
next
  case True
  then show ?thesis using assms normalizeEntry_normal
    by (auto simp: getUserSavedData_def normal_data_def split: sum.splits member.splits)
qed

lemma setUserSavedData_pair:
  assumes "truthy u" "user_key u = Inr k"
  shows "setUserSavedData u d w = (Inr (), snd (setUserSavedData u d w))"
  using store_after_set(1) [OF assms, of d w] by (metis prod.collapse)

lemma case_setUserSavedData:
  assumes "truthy u" "user_key u = Inr k"
  shows "(case setUserSavedData u d w of (Inl e, w') \<Rightarrow> (Inl e, w') | (Inr x, w') \<Rightarrow> (Inr r, w'))
         = (Inr r, snd (setUserSavedData u d w))"
proof -
  obtain w' where "setUserSavedData u d w = (Inr (), w')"
    using setUserSavedData_pair [OF assms] by blast
  then show ?thesis by simp
qed

lemma after_write:
  assumes "truthy u" "user_key u = Inr k" "normal_data d'"
  shows "getUserSavedData v (snd (setUserSavedData u d' w)) =
     (if truthy v \<and> user_key v = Inr k \<and> takes_effect (getSavedStore w) k then Inr d'
      else getUserSavedData v w)"
  using read_after_write [OF assms(1,2), of v d' w] normalizeEntry_roundtrip [OF assms(3)]
  by simp



subsection \<open>One step of each operation\<close>

lemma savePlace_step:
  assumes "truthy u" "getUserSavedData u w = Inr d" "String_js p = Inr s"
  shows "savePlace u p w =
     (Inr (set_add (Set_from (items d)) (JStr s)),
      snd (setUserSavedData u (d\<lparr>items := set_add (Set_from (items d)) (JStr s)\<rparr>) w))"
proof -
  from readable_key [OF assms(1,2)] obtain k where k: "user_key u = Inr k" by blast
  show ?thesis
    using assms by (simp add: savePlace_def Let_def case_setUserSavedData [OF assms(1) k])
qed

lemma removeSavedPlace_step:
  assumes "truthy u" "getUserSavedData u w = Inr d" "String_js p = Inr s"
  shows "removeSavedPlace u p w =
     (Inr (filter (\<lambda>i. i \<noteq> JStr s) (items d)),
      snd (setUserSavedData u
        \<lparr>items = filter (\<lambda>i. i \<noteq> JStr s) (items d),
         collections = map (\<lambda>(k, c). (k, c\<lparr>placeIds := filter (\<lambda>i. i \<noteq> JStr s) (placeIds c)\<rparr>))
                         (collections d)\<rparr> w))"
proof -
  from readable_key [OF assms(1,2)] obtain k where k: "user_key u = Inr k" by blast
  show ?thesis
    using assms by (simp add: removeSavedPlace_def Let_def case_setUserSavedData [OF assms(1) k])
qed

lemma generateCollectionId_no_proto: "generateCollectionId stamp rnd \<noteq> ''__proto__''"
  by (simp add: generateCollectionId_def COLLECTION_PREFIX_def)

lemma createCollection_step:
  assumes "truthy u" "getUserSavedData u w = Inr d" "trim s \<noteq> []"
  shows "createCollection u (Val (JStr s)) stamp rnd w =
     (Inr \<lparr>col_id = JStr (generateCollectionId stamp rnd), col_name = JStr (trim s), placeIds = []\<rparr>,
      snd (setUserSavedData u
        (d\<lparr>collections := obj_set (collections d) (generateCollectionId stamp rnd)
             \<lparr>col_id = JStr (generateCollectionId stamp rnd), col_name = JStr (trim s), placeIds = []\<rparr>\<rparr>) w))"
proof -
  from readable_key [OF assms(1,2)] obtain k where k: "user_key u = Inr k" by blast
  have a: "obj_assign ps (generateCollectionId stamp rnd) c = obj_set ps (generateCollectionId stamp rnd) c"
    for ps :: "(string \<times> collection) list" and c
    using generateCollectionId_no_proto [of stamp rnd] by (simp add: obj_assign_def)
  show ?thesis
    using assms
    by (simp add: createCollection_def trim_opt_def Let_def a case_setUserSavedData [OF assms(1) k])
qed

lemma deleteCollection_step:
  assumes "truthy u" "getUserSavedData u w = Inr d" "String_js c = Inr k"
  shows "deleteCollection u c w =
     (Inr (), snd (setUserSavedData u (d\<lparr>collections := obj_delete (collections d) k\<rparr>) w))"
proof -
  from readable_key [OF assms(1,2)] obtain k0 where k0: "user_key u = Inr k0" by blast
  show ?thesis
    using assms setUserSavedData_pair [OF assms(1) k0]
    by (simp add: deleteCollection_def Let_def)
qed

lemma addPlaceToCollection_step:
  assumes "truthy u" "getUserSavedData u w = Inr d" "String_js c = Inr k"
    "obj_member (collections d) k = Found col" "String_js p = Inr s"
  shows "addPlaceToCollection u c p w =
     (Inr (Collection (col\<lparr>placeIds := set_add (Set_from (placeIds col)) (JStr s)\<rparr>)),
      snd (setUserSavedData u
        \<lparr>items = (if JStr s \<in> set (items d) then items d else items d @ [JStr s]),
         collections = obj_set (collections d) k
            (col\<lparr>placeIds := set_add (Set_from (placeIds col)) (JStr s)\<rparr>)\<rparr> w))"
proof -
  from readable_key [OF assms(1,2)] obtain k0 where k0: "user_key u = Inr k0" by blast
  show ?thesis
    using assms
    by (simp add: addPlaceToCollection_def Let_def obj_assign_found [OF assms(4)]
        case_setUserSavedData [OF assms(1) k0])
qed

lemma addPlaceToCollection_inherited:
  assumes "truthy u" "getUserSavedData u w = Inr d" "String_js c = Inr k"
    "obj_member (collections d) k = Inherited" "String_js p = Inr s"
  shows "addPlaceToCollection u c p w =
     (Inr (Builtin_object k [JStr s]),
      snd (setUserSavedData u
        \<lparr>items = (if JStr s \<in> set (items d) then items d else items d @ [JStr s]),
         collections = collections d\<rparr> w))"
proof -
  from readable_key [OF assms(1,2)] obtain k0 where k0: "user_key u = Inr k0" by blast
  show ?thesis
    using assms
    by (simp add: addPlaceToCollection_def Let_def Set_from_def set_add_def
        case_setUserSavedData [OF assms(1) k0])
qed

lemma addPlaceToCollection_missing:
  assumes "truthy u" "getUserSavedData u w = Inr d" "String_js c = Inr k"
    "obj_member (collections d) k = Absent"
  shows "addPlaceToCollection u c p w = (Inl (Error ''Collection not found.''), w)"
  using assms by (simp add: addPlaceToCollection_def)

lemma removePlaceFromCollection_step:
  assumes "truthy u" "getUserSavedData u w = Inr d" "String_js c = Inr k"
    "obj_member (collections d) k = Found col" "String_js p = Inr s"
  shows "removePlaceFromCollection u c p w =
     (Inr (), snd (setUserSavedData u
        (d\<lparr>collections := obj_set (collections d) k
            (col\<lparr>placeIds := filter (\<lambda>i. i \<noteq> JStr s) (placeIds col)\<rparr>)\<rparr>) w))"
proof -
  from readable_key [OF assms(1,2)] obtain k0 where k0: "user_key u = Inr k0" by blast
  show ?thesis
  proof (cases "placeIds col = []")
    case True
    then have e: "col\<lparr>placeIds := filter (\<lambda>i. i \<noteq> JStr s) (placeIds col)\<rparr> = col" by simp
    show ?thesis
      unfolding e
      using assms True setUserSavedData_pair [OF assms(1) k0]
      by (simp add: removePlaceFromCollection_def obj_assign_found [OF assms(4)])
  next
    case False
    then show ?thesis
      using assms setUserSavedData_pair [OF assms(1) k0]
      by (simp add: removePlaceFromCollection_def Let_def obj_assign_found [OF assms(4)])
  qed
qed

lemma removePlaceFromCollection_empty:
  assumes "truthy u" "getUserSavedData u w = Inr d" "String_js c = Inr k"
    "obj_member (collections d) k = Found col" "placeIds col = []"
  shows "removePlaceFromCollection u c p w =
     (Inr (), snd (setUserSavedData u (d\<lparr>collections := obj_set (collections d) k col\<rparr>) w))"
proof -
  from readable_key [OF assms(1,2)] obtain k0 where k0: "user_key u = Inr k0" by blast
  show ?thesis
    using assms setUserSavedData_pair [OF assms(1) k0]
    by (auto simp: removePlaceFromCollection_def Let_def obj_assign_found [OF assms(4)])
qed

lemma removePlaceFromCollection_inherited:
  assumes "truthy u" "getUserSavedData u w = Inr d" "String_js c = Inr k"
    "obj_member (collections d) k = Inherited"
  shows "removePlaceFromCollection u c p w = (Inr (), snd (setUserSavedData u d w))"
proof -
  from readable_key [OF assms(1,2)] obtain k0 where k0: "user_key u = Inr k0" by blast
  show ?thesis
    using assms setUserSavedData_pair [OF assms(1) k0]
    by (auto simp: removePlaceFromCollection_def Let_def)
qed

lemma removePlaceFromCollection_missing:
  assumes "truthy u" "getUserSavedData u w = Inr d" "String_js c = Inr k"
    "obj_member (collections d) k = Absent"
  shows "removePlaceFromCollection u c p w = (Inr (), w)"
  using assms by (simp add: removePlaceFromCollection_def)

lemma no_data_no_write:
  assumes "\<not> truthy u \<or> (\<exists>e. getUserSavedData u w = Inl e)"
  shows "snd (savePlace u p w) = w" "snd (removeSavedPlace u p w) = w"
    "snd (createCollection u name stamp rnd w) = w" "snd (deleteCollection u c w) = w"
    "snd (addPlaceToCollection u c p w) = w" "snd (removePlaceFromCollection u c p w) = w"
  using assms
  by (auto simp: savePlace_def removeSavedPlace_def createCollection_def deleteCollection_def
      addPlaceToCollection_def removePlaceFromCollection_def split: sum.splits option.splits)

lemma no_text_no_write:
  assumes "String_js p = Inl e"
  shows "snd (savePlace u p w) = w" "snd (removeSavedPlace u p w) = w"
    "snd (deleteCollection u p w) = w"
    "snd (addPlaceToCollection u p q w) = w" "snd (removePlaceFromCollection u p q w) = w"
  using assms
  by (auto simp: savePlace_def removeSavedPlace_def deleteCollection_def
      addPlaceToCollection_def removePlaceFromCollection_def split: sum.splits)

subsection \<open>What each change does to the shape and to the invariant\<close>

lemma good_all_iff:
  "list_all good_collection cs \<longleftrightarrow> (\<forall>k c. (k, c) \<in> set cs \<longrightarrow> good_collection (k, c))"
  by (auto simp: list_all_iff)

lemma subset_inv_iff:
  "subset_inv d \<longleftrightarrow> (\<forall>k c. (k, c) \<in> set (collections d) \<longrightarrow> set (placeIds c) \<subseteq> set (items d))"
  by (auto simp: subset_inv_def list_all_iff)

lemma map_fst_values: "map (fst \<circ> (\<lambda>(k, c). (k, g c))) cs = map fst cs"
  by (induction cs) auto

lemma set_delete_cases: "p \<in> set (AList.delete k al) \<Longrightarrow> p \<in> set al"
  by (simp add: AList.delete_eq)

lemma normal_items: "normal_data d \<Longrightarrow> normal_data (d\<lparr>items := xs\<rparr>)"
  by (simp add: normal_data_def)

lemma normal_items_only: "normal_data d \<Longrightarrow> normal_data \<lparr>items = xs, collections = collections d\<rparr>"
  by (simp add: normal_data_def)

lemma normal_map_placeIds:
  assumes "normal_data d"
  shows "normal_data \<lparr>items = xs,
           collections = map (\<lambda>(k, c). (k, c\<lparr>placeIds := f (placeIds c)\<rparr>)) (collections d)\<rparr>"
proof -
  have "list_all good_collection
        (map (\<lambda>(k, c). (k, c\<lparr>placeIds := f (placeIds c)\<rparr>)) (collections d))"
    using assms by (auto simp: normal_data_def list_all_iff good_collection_def)
  then show ?thesis using assms by (simp add: normal_data_def map_fst_values)
qed

lemma normal_set:
  assumes "normal_data d" "good_collection (k, c)"
  shows "normal_data \<lparr>items = xs, collections = obj_set (collections d) k c\<rparr>"
proof -
  have "distinct (map fst (obj_set (collections d) k c))"
    using assms(1) by (simp add: normal_data_def obj_set_def distinct_update)
  moreover have "list_all good_collection (obj_set (collections d) k c)"
    unfolding good_all_iff obj_set_def
  proof (intro allI impI)
    fix k' c' assume "(k', c') \<in> set (AList.update k c (collections d))"
    then have "(k', c') = (k, c) \<or> (k', c') \<in> set (collections d)" by (rule set_update_cases)
    then show "good_collection (k', c')"
      using assms by (auto simp: normal_data_def good_all_iff)
  qed
  ultimately show ?thesis by (simp add: normal_data_def)
qed

lemma normal_delete:
  assumes "normal_data d"
  shows "normal_data \<lparr>items = xs, collections = obj_delete (collections d) k\<rparr>"
proof -
  have "distinct (map fst (obj_delete (collections d) k))"
    using assms by (simp add: normal_data_def obj_delete_def distinct_delete)
  moreover have "list_all good_collection (obj_delete (collections d) k)"
    unfolding good_all_iff obj_delete_def
  proof (intro allI impI)
    fix k' c' assume "(k', c') \<in> set (AList.delete k (collections d))"
    then have "(k', c') \<in> set (collections d)" by (rule set_delete_cases)
    then show "good_collection (k', c')"
      using assms by (auto simp: normal_data_def good_all_iff)
  qed
  ultimately show ?thesis by (simp add: normal_data_def)
qed

lemma obj_get_good:
  assumes "normal_data d" "obj_get (collections d) k = Some c"
  shows "good_collection (k, c)"
proof -
  have "(k, c) \<in> set (collections d)"
    using assms(2) unfolding obj_get_def by (rule map_of_SomeD)
  then show ?thesis using assms(1) by (auto simp: normal_data_def list_all_iff)
qed

lemma obj_member_good:
  assumes "normal_data d" "obj_member (collections d) k = Found c"
  shows "good_collection (k, c)"
  using assms(1) assms(2) [unfolded obj_member_Found] by (rule obj_get_good)

lemma good_placeIds: "good_collection (k, c) \<Longrightarrow> good_collection (k, c\<lparr>placeIds := xs\<rparr>)"
  by (simp add: good_collection_def)

lemma good_new:
  assumes "s \<noteq> []"
  shows "good_collection (generateCollectionId stamp rnd,
           \<lparr>col_id = JStr (generateCollectionId stamp rnd), col_name = JStr s, placeIds = []\<rparr>)"
  using assms
  by (simp add: good_collection_def generateCollectionId_def COLLECTION_PREFIX_def String_json_def)

lemma subset_set:
  assumes "subset_inv d" "set (items d) \<subseteq> set xs" "set (placeIds c) \<subseteq> set xs"
  shows "subset_inv \<lparr>items = xs, collections = obj_set (collections d) k c\<rparr>"
  unfolding subset_inv_iff obj_set_def
proof (intro allI impI)
  fix k' c'
  assume "(k', c') \<in> set (collections \<lparr>items = xs, collections = AList.update k c (collections d)\<rparr>)"
  then have "(k', c') \<in> set (AList.update k c (collections d))" by simp
  then have "(k', c') = (k, c) \<or> (k', c') \<in> set (collections d)" by (rule set_update_cases)
  then have "set (placeIds c') \<subseteq> set xs"
    using assms by (auto simp: subset_inv_iff)
  then show "set (placeIds c') \<subseteq> set (items \<lparr>items = xs, collections = AList.update k c (collections d)\<rparr>)"
    by simp
qed

lemma subset_delete:
  assumes "subset_inv d"
  shows "subset_inv \<lparr>items = items d, collections = obj_delete (collections d) k\<rparr>"
  unfolding subset_inv_iff obj_delete_def
proof (intro allI impI)
  fix k' c'
  assume "(k', c') \<in> set (collections \<lparr>items = items d, collections = AList.delete k (collections d)\<rparr>)"
  then have "(k', c') \<in> set (AList.delete k (collections d))" by simp
  then have "(k', c') \<in> set (collections d)" by (rule set_delete_cases)
  then have "set (placeIds c') \<subseteq> set (items d)"
    using assms by (auto simp: subset_inv_iff)
  then show "set (placeIds c') \<subseteq> set (items \<lparr>items = items d, collections = AList.delete k (collections d)\<rparr>)"
    by simp
qed

lemma subset_filter:
  assumes "subset_inv d"
  shows "subset_inv \<lparr>items = filter P (items d),
           collections = map (\<lambda>(k, c). (k, c\<lparr>placeIds := filter P (placeIds c)\<rparr>)) (collections d)\<rparr>"
  unfolding subset_inv_iff
proof (intro allI impI)
  fix k' c'
  assume "(k', c') \<in> set (collections \<lparr>items = filter P (items d),
           collections = map (\<lambda>(k, c). (k, c\<lparr>placeIds := filter P (placeIds c)\<rparr>)) (collections d)\<rparr>)"
  then obtain c where c: "(k', c) \<in> set (collections d)" "c' = c\<lparr>placeIds := filter P (placeIds c)\<rparr>"
    by auto
  have "set (placeIds c) \<subseteq> set (items d)" using assms c(1) by (simp add: subset_inv_iff)
  then show "set (placeIds c') \<subseteq> set (items \<lparr>items = filter P (items d),
           collections = map (\<lambda>(k, c). (k, c\<lparr>placeIds := filter P (placeIds c)\<rparr>)) (collections d)\<rparr>)"
    by (auto simp: c(2))
qed

lemma subset_more_items:
  assumes "subset_inv d" "set (items d) \<subseteq> set xs"
  shows "subset_inv (d\<lparr>items := xs\<rparr>)"
  unfolding subset_inv_iff
proof (intro allI impI)
  fix k c
  assume "(k, c) \<in> set (collections (d\<lparr>items := xs\<rparr>))"
  then have "set (placeIds c) \<subseteq> set (items d)" using assms(1) by (simp add: subset_inv_iff)
  then show "set (placeIds c) \<subseteq> set (items (d\<lparr>items := xs\<rparr>))" using assms(2) by auto
qed

lemma obj_get_subset:
  assumes "subset_inv d" "obj_get (collections d) k = Some c"
  shows "set (placeIds c) \<subseteq> set (items d)"
proof -
  have "(k, c) \<in> set (collections d)"
    using assms(2) unfolding obj_get_def by (rule map_of_SomeD)
  then show ?thesis using assms(1) by (auto simp: subset_inv_def list_all_iff)
qed

lemma obj_member_subset:
  assumes "subset_inv d" "obj_member (collections d) k = Found c"
  shows "set (placeIds c) \<subseteq> set (items d)"
  using assms(1) assms(2) [unfolded obj_member_Found] by (rule obj_get_subset)

lemma data_update_cols:
  "d\<lparr>collections := cs\<rparr> = \<lparr>items = items d, collections = cs\<rparr>"
  by simp

lemma data_update_items:
  "d\<lparr>items := xs\<rparr> = \<lparr>items = xs, collections = collections d\<rparr>"
  by simp

subsection \<open>Every operation either leaves the world alone or writes the caller's entry\<close>

lemma readable_or_not:
  obtains (unreadable) "\<not> truthy u \<or> (\<exists>e. getUserSavedData u w = Inl e)"
  | (readable) d where "truthy u" "getUserSavedData u w = Inr d" "normal_data d"
proof (cases "truthy u")
  case False
  then show ?thesis using unreadable by simp
next
  case True
  show ?thesis
  proof (cases "getUserSavedData u w")
    case (Inl e)
    then show ?thesis using unreadable by blast
  next
    case (Inr d)
    then show ?thesis using readable True getUserSavedData_normal by blast
  qed
qed

lemma savePlace_cases:
  obtains (unchanged) "snd (savePlace u p w) = w"
  | (written) d d' where "truthy u" "getUserSavedData u w = Inr d" "normal_data d'"
      "subset_inv d \<longrightarrow> subset_inv d'" "snd (savePlace u p w) = snd (setUserSavedData u d' w)"
proof (cases rule: readable_or_not [of u w])
  case unreadable
  then show ?thesis using unchanged no_data_no_write(1) by blast
next
  case (readable d)
  show ?thesis
  proof (cases "String_js p")
    case (Inl e)
    then show ?thesis using unchanged no_text_no_write(1) by blast
  next
    case (Inr s)
    let ?d' = "d\<lparr>items := set_add (Set_from (items d)) (JStr s)\<rparr>"
    have "normal_data ?d'" using readable(3) by (rule normal_items)
    moreover have "subset_inv d \<longrightarrow> subset_inv ?d'"
      using subset_more_items [of d "set_add (Set_from (items d)) (JStr s)"]
      by (auto simp: set_add_set set_Set_from)
    moreover have "snd (savePlace u p w) = snd (setUserSavedData u ?d' w)"
      using savePlace_step [OF readable(1,2) Inr] by simp
    ultimately show ?thesis using written readable(1,2) by blast
  qed
qed

lemma removeSavedPlace_cases:
  obtains (unchanged) "snd (removeSavedPlace u p w) = w"
  | (written) d d' where "truthy u" "getUserSavedData u w = Inr d" "normal_data d'"
      "subset_inv d \<longrightarrow> subset_inv d'" "snd (removeSavedPlace u p w) = snd (setUserSavedData u d' w)"
proof (cases rule: readable_or_not [of u w])
  case unreadable
  then show ?thesis using unchanged no_data_no_write(2) by blast
next
  case (readable d)
  show ?thesis
  proof (cases "String_js p")
    case (Inl e)
    then show ?thesis using unchanged no_text_no_write(2) by blast
  next
    case (Inr s)
    let ?P = "\<lambda>i. i \<noteq> JStr s"
    let ?d' = "\<lparr>items = filter ?P (items d),
                collections = map (\<lambda>(k, c). (k, c\<lparr>placeIds := filter ?P (placeIds c)\<rparr>)) (collections d)\<rparr>"
    have "normal_data ?d'" using readable(3) by (rule normal_map_placeIds)
    moreover have "subset_inv d \<longrightarrow> subset_inv ?d'"
      using subset_filter [of d ?P] by blast
    moreover have "snd (removeSavedPlace u p w) = snd (setUserSavedData u ?d' w)"
      using removeSavedPlace_step [OF readable(1,2) Inr] by simp
    ultimately show ?thesis using written readable(1,2) by blast
  qed
qed

lemma createCollection_no_name:
  assumes "\<And>s. name = Val (JStr s) \<Longrightarrow> trim s = []"
  shows "snd (createCollection u name stamp rnd w) = w"
proof (cases name)
  case Undefined
  then show ?thesis by (simp add: createCollection_def trim_opt_def)
next
  case (Val j)
  then show ?thesis using assms
    by (cases j) (auto simp: createCollection_def trim_opt_def)
qed

lemma createCollection_cases:
  obtains (unchanged) "snd (createCollection u name stamp rnd w) = w"
  | (written) d d' where "truthy u" "getUserSavedData u w = Inr d" "normal_data d'"
      "subset_inv d \<longrightarrow> subset_inv d'"
      "snd (createCollection u name stamp rnd w) = snd (setUserSavedData u d' w)"
proof (cases rule: readable_or_not [of u w])
  case unreadable
  then show ?thesis using unchanged no_data_no_write(3) by blast
next
  case (readable d)
  show ?thesis
  proof (cases "\<exists>s. name = Val (JStr s) \<and> trim s \<noteq> []")
    case False
    then have "snd (createCollection u name stamp rnd w) = w"
      using createCollection_no_name [of name u stamp rnd w] by blast
    then show ?thesis using unchanged by blast
  next
    case True
    then obtain s where s: "name = Val (JStr s)" "trim s \<noteq> []" by blast
    let ?id = "generateCollectionId stamp rnd"
    let ?c = "\<lparr>col_id = JStr ?id, col_name = JStr (trim s), placeIds = []\<rparr>"
    let ?d' = "\<lparr>items = items d, collections = obj_set (collections d) ?id ?c\<rparr>"
    have e: "d\<lparr>collections := obj_set (collections d) ?id ?c\<rparr> = ?d'" by simp
    have "normal_data ?d'" using readable(3) good_new [OF s(2)] by (rule normal_set)
    moreover have "subset_inv d \<longrightarrow> subset_inv ?d'"
      using subset_set [of d "items d" ?c ?id] by simp
    moreover have "snd (createCollection u name stamp rnd w) = snd (setUserSavedData u ?d' w)"
      using createCollection_step [OF readable(1,2) s(2), of stamp rnd] by (simp add: s(1) e)
    ultimately show ?thesis using written readable(1,2) by blast
  qed
qed

lemma deleteCollection_cases:
  obtains (unchanged) "snd (deleteCollection u c w) = w"
  | (written) d d' where "truthy u" "getUserSavedData u w = Inr d" "normal_data d'"
      "subset_inv d \<longrightarrow> subset_inv d'" "snd (deleteCollection u c w) = snd (setUserSavedData u d' w)"
proof (cases rule: readable_or_not [of u w])
  case unreadable
  then show ?thesis using unchanged no_data_no_write(4) by blast
next
  case (readable d)
  show ?thesis
  proof (cases "String_js c")
    case (Inl e)
    then show ?thesis using unchanged no_text_no_write(3) by blast
  next
    case (Inr k)
    let ?d' = "\<lparr>items = items d, collections = obj_delete (collections d) k\<rparr>"
    have e: "d\<lparr>collections := obj_delete (collections d) k\<rparr> = ?d'" by simp
    have "normal_data ?d'" using readable(3) by (rule normal_delete)
    moreover have "subset_inv d \<longrightarrow> subset_inv ?d'"
      using subset_delete [of d] by blast
    moreover have "snd (deleteCollection u c w) = snd (setUserSavedData u ?d' w)"
      using deleteCollection_step [OF readable(1,2) Inr] by (simp add: e)
    ultimately show ?thesis using written readable(1,2) by blast
  qed
qed

lemma addPlaceToCollection_no_text:
  assumes "String_js p = Inl e"
  shows "snd (addPlaceToCollection u c p w) = w"
  using assms
  by (auto simp: addPlaceToCollection_def split: sum.splits member.splits)

lemma addPlaceToCollection_cases:
  obtains (unchanged) "snd (addPlaceToCollection u c p w) = w"
  | (written) d d' where "truthy u" "getUserSavedData u w = Inr d" "normal_data d'"
      "subset_inv d \<longrightarrow> subset_inv d'"
      "snd (addPlaceToCollection u c p w) = snd (setUserSavedData u d' w)"
proof (cases rule: readable_or_not [of u w])
  case unreadable
  then show ?thesis using unchanged no_data_no_write(5) by blast
next
  case (readable d)
  show ?thesis
  proof (cases "String_js c")
    case (Inl e)
    then show ?thesis using unchanged no_text_no_write(4) by blast
  next
    case (Inr k)
    note k = Inr
    show ?thesis
    proof (cases "String_js p")
      case (Inl e)
      then show ?thesis using unchanged addPlaceToCollection_no_text by blast
    next
      case (Inr s)
      let ?pid = "JStr s"
      let ?its = "if ?pid \<in> set (items d) then items d else items d @ [?pid]"
      show ?thesis
      proof (cases "obj_member (collections d) k")
        case Absent
        then show ?thesis using unchanged addPlaceToCollection_missing [OF readable(1,2) k] by simp
      next
        case Inherited
        let ?d' = "\<lparr>items = ?its, collections = collections d\<rparr>"
        have "normal_data ?d'" using readable(3) by (rule normal_items_only)
        moreover have "subset_inv d \<longrightarrow> subset_inv ?d'"
        proof
          assume i: "subset_inv d"
          have a: "set (items d) \<subseteq> set ?its" by auto
          from subset_more_items [OF i a] show "subset_inv ?d'" by (simp add: data_update_items)
        qed
        moreover have "snd (addPlaceToCollection u c p w) = snd (setUserSavedData u ?d' w)"
          using addPlaceToCollection_inherited [OF readable(1,2) k Inherited Inr] by simp
        ultimately show ?thesis using written readable(1,2) by blast
      next
        case (Found col)
        let ?col = "col\<lparr>placeIds := set_add (Set_from (placeIds col)) ?pid\<rparr>"
        let ?d' = "\<lparr>items = ?its, collections = obj_set (collections d) k ?col\<rparr>"
        have g: "good_collection (k, ?col)"
          using obj_member_good [OF readable(3) Found] by (rule good_placeIds)
        have "normal_data ?d'" using readable(3) g by (rule normal_set)
        moreover have "subset_inv d \<longrightarrow> subset_inv ?d'"
        proof
          assume i: "subset_inv d"
          have a: "set (items d) \<subseteq> set ?its" by auto
          have "set (placeIds col) \<subseteq> set (items d)" using i Found by (rule obj_member_subset)
          then have b: "set (placeIds ?col) \<subseteq> set ?its" by (auto simp: set_add_set set_Set_from)
          show "subset_inv ?d'" using i a b by (rule subset_set)
        qed
        moreover have "snd (addPlaceToCollection u c p w) = snd (setUserSavedData u ?d' w)"
          using addPlaceToCollection_step [OF readable(1,2) k Found Inr] by simp
        ultimately show ?thesis using written readable(1,2) by blast
      qed
    qed
  qed
qed

lemma removePlaceFromCollection_found:
  assumes "truthy u" "getUserSavedData u w = Inr d" "String_js c = Inr k"
    "obj_member (collections d) k = Found col"
  shows "snd (removePlaceFromCollection u c p w) = w
       \<or> (\<exists>xs. set xs \<subseteq> set (placeIds col) \<and>
            snd (removePlaceFromCollection u c p w) =
              snd (setUserSavedData u
                 \<lparr>items = items d, collections = obj_set (collections d) k (col\<lparr>placeIds := xs\<rparr>)\<rparr> w))"
proof (cases "placeIds col = []")
  case True
  have "col\<lparr>placeIds := []\<rparr> = col" using True by simp
  then have "snd (removePlaceFromCollection u c p w) =
     snd (setUserSavedData u
        \<lparr>items = items d, collections = obj_set (collections d) k (col\<lparr>placeIds := []\<rparr>)\<rparr> w)"
    using removePlaceFromCollection_empty [OF assms True, of p] by (simp add: data_update_cols)
  then show ?thesis by (intro disjI2 exI [of _ "[]"]) simp
next
  case False
  show ?thesis
  proof (cases "String_js p")
    case (Inl e)
    then have "snd (removePlaceFromCollection u c p w) = w"
      using assms False by (simp add: removePlaceFromCollection_def)
    then show ?thesis by simp
  next
    case (Inr s)
    have "snd (removePlaceFromCollection u c p w) =
      snd (setUserSavedData u
        \<lparr>items = items d, collections = obj_set (collections d) k
           (col\<lparr>placeIds := filter (\<lambda>i. i \<noteq> JStr s) (placeIds col)\<rparr>)\<rparr> w)"
      using removePlaceFromCollection_step [OF assms Inr] by (simp add: data_update_cols)
    then show ?thesis
      by (intro disjI2 exI [of _ "filter (\<lambda>i. i \<noteq> JStr s) (placeIds col)"]) simp
  qed
qed

lemma removePlaceFromCollection_cases:
  obtains (unchanged) "snd (removePlaceFromCollection u c p w) = w"
  | (written) d d' where "truthy u" "getUserSavedData u w = Inr d" "normal_data d'"
      "subset_inv d \<longrightarrow> subset_inv d'"
      "snd (removePlaceFromCollection u c p w) = snd (setUserSavedData u d' w)"
proof (cases rule: readable_or_not [of u w])
  case unreadable
  then show ?thesis using unchanged no_data_no_write(6) by blast
next
  case (readable d)
  show ?thesis
  proof (cases "String_js c")
    case (Inl e)
    then show ?thesis using unchanged no_text_no_write(5) by blast
  next
    case (Inr k)
    show ?thesis
    proof (cases "obj_member (collections d) k")
      case Absent
      then show ?thesis
        using unchanged removePlaceFromCollection_missing [OF readable(1,2) Inr] by simp
    next
      case Inherited
      have "snd (removePlaceFromCollection u c p w) = snd (setUserSavedData u d w)"
        using removePlaceFromCollection_inherited [OF readable(1,2) Inr Inherited] by simp
      then show ?thesis using written [of d d] readable by blast
    next
      case (Found col)
      from removePlaceFromCollection_found [OF readable(1,2) Inr Found, of p]
      show ?thesis
      proof
        assume "snd (removePlaceFromCollection u c p w) = w"
        then show ?thesis using unchanged by blast
      next
        assume "\<exists>xs. set xs \<subseteq> set (placeIds col) \<and>
            snd (removePlaceFromCollection u c p w) =
              snd (setUserSavedData u
                 \<lparr>items = items d, collections = obj_set (collections d) k (col\<lparr>placeIds := xs\<rparr>)\<rparr> w)"
        then obtain xs where xs: "set xs \<subseteq> set (placeIds col)"
          and s: "snd (removePlaceFromCollection u c p w) =
              snd (setUserSavedData u
                 \<lparr>items = items d, collections = obj_set (collections d) k (col\<lparr>placeIds := xs\<rparr>)\<rparr> w)"
          by blast
        let ?col = "col\<lparr>placeIds := xs\<rparr>"
        let ?d' = "\<lparr>items = items d, collections = obj_set (collections d) k ?col\<rparr>"
        have g: "good_collection (k, ?col)"
          using obj_member_good [OF readable(3) Found] by (rule good_placeIds)
        have n: "normal_data ?d'" using readable(3) g by (rule normal_set)
        have i: "subset_inv d \<longrightarrow> subset_inv ?d'"
        proof
          assume i: "subset_inv d"
          have "set (placeIds col) \<subseteq> set (items d)" using i Found by (rule obj_member_subset)
          then have b: "set (placeIds ?col) \<subseteq> set (items d)" using xs by auto
          show "subset_inv ?d'" using i _ b by (rule subset_set) simp
        qed
        show ?thesis using written [OF readable(1,2) n i s] .
      qed
    qed
  qed
qed



lemma readable_after_write:
  assumes "truthy u" "getUserSavedData u w = Inr d0" "normal_data d'" "getUserSavedData v w = Inr d"
  shows "\<exists>d''. getUserSavedData v (snd (setUserSavedData u d' w)) = Inr d''"
proof -
  from readable_key [OF assms(1,2)] obtain k where k: "user_key u = Inr k" by blast
  show ?thesis using after_write [OF assms(1) k assms(3), of v w] assms(4) by auto
qed

text \<open>Data that can be read once can be read after every operation, whoever calls it: the
  operations never write an entry that \<^verbatim>\<open>getUserSavedData\<close> cannot read. Reading is
  possible, in particular, on a browser with nothing stored.\<close>

lemma readable_preserved:
  assumes "getUserSavedData v w = Inr d"
  shows "\<exists>d'. getUserSavedData v (snd (savePlace u p w)) = Inr d'"
    and "\<exists>d'. getUserSavedData v (snd (removeSavedPlace u p w)) = Inr d'"
    and "\<exists>d'. getUserSavedData v (snd (createCollection u name stamp rnd w)) = Inr d'"
    and "\<exists>d'. getUserSavedData v (snd (deleteCollection u c w)) = Inr d'"
    and "\<exists>d'. getUserSavedData v (snd (addPlaceToCollection u c p w)) = Inr d'"
    and "\<exists>d'. getUserSavedData v (snd (removePlaceFromCollection u c p w)) = Inr d'"
proof -
  show "\<exists>d'. getUserSavedData v (snd (savePlace u p w)) = Inr d'"
    by (cases rule: savePlace_cases [of u p w]) (use assms readable_after_write in auto)
  show "\<exists>d'. getUserSavedData v (snd (removeSavedPlace u p w)) = Inr d'"
    by (cases rule: removeSavedPlace_cases [of u p w]) (use assms readable_after_write in auto)
  show "\<exists>d'. getUserSavedData v (snd (createCollection u name stamp rnd w)) = Inr d'"
    by (cases rule: createCollection_cases [of u name stamp rnd w])
      (use assms readable_after_write in auto)
  show "\<exists>d'. getUserSavedData v (snd (deleteCollection u c w)) = Inr d'"
    by (cases rule: deleteCollection_cases [of u c w]) (use assms readable_after_write in auto)
  show "\<exists>d'. getUserSavedData v (snd (addPlaceToCollection u c p w)) = Inr d'"
    by (cases rule: addPlaceToCollection_cases [of u c p w])
      (use assms readable_after_write in auto)
  show "\<exists>d'. getUserSavedData v (snd (removePlaceFromCollection u c p w)) = Inr d'"
    by (cases rule: removePlaceFromCollection_cases [of u c p w])
      (use assms readable_after_write in auto)
qed

text \<open>On a browser with nothing stored every collection lists saved places only, so the
  same is true of every world the operations can lead to from there.\<close>

lemma inv_when_empty:
  "localStorage w SAVED_KEY = NoItem \<Longrightarrow> user_inv v w"
  by (auto simp: user_inv_def getUserSavedData_def getSavedStore_def parseJSON_def
      obj_member_def normalizeEntry_def subset_inv_def split: sum.splits)










subsection \<open>Reading back\<close>




















subsection \<open>The two modules, function by function\<close>

lemma SAVED_KEY_remote_eq: "SAVED_KEY_remote = SAVED_KEY"
  by (simp add: SAVED_KEY_remote_def SAVED_KEY_def)

lemma COLLECTION_PREFIX_remote_eq: "COLLECTION_PREFIX_remote = COLLECTION_PREFIX"
  by (simp add: COLLECTION_PREFIX_remote_def COLLECTION_PREFIX_def)

lemma parseJSON_remote_eq: "parseJSON_remote = parseJSON"
  unfolding fun_eq_iff parseJSON_remote_def parseJSON_def
  by simp

lemma emitSavedChange_remote_eq: "emitSavedChange_remote = emitSavedChange"
  unfolding fun_eq_iff emitSavedChange_remote_def emitSavedChange_def
  by simp

lemma getSavedStore_remote_eq: "getSavedStore_remote = getSavedStore"
  unfolding fun_eq_iff getSavedStore_remote_def getSavedStore_def parseJSON_remote_eq SAVED_KEY_remote_eq
  by simp

lemma setSavedStore_remote_eq: "setSavedStore_remote = setSavedStore"
  unfolding fun_eq_iff setSavedStore_remote_def setSavedStore_def SAVED_KEY_remote_eq
  by simp

lemma normalizeCollection_remote_eq: "normalizeCollection_remote = normalizeCollection"
  unfolding fun_eq_iff normalizeCollection_remote_def normalizeCollection_def
  by simp

lemma normalizeCollections_remote_eq: "normalizeCollections_remote = normalizeCollections"
  unfolding fun_eq_iff normalizeCollections_remote_def normalizeCollections_def normalizeCollection_remote_eq
  by simp

lemma normalizeEntry_remote_eq: "normalizeEntry_remote = normalizeEntry"
  unfolding fun_eq_iff normalizeEntry_remote_def normalizeEntry_def normalizeCollections_remote_eq
  by simp

lemma getUserSavedData_remote_eq: "getUserSavedData_remote = getUserSavedData"
  unfolding fun_eq_iff getUserSavedData_remote_def getUserSavedData_def normalizeEntry_remote_eq getSavedStore_remote_eq
  by simp

lemma setUserSavedData_remote_eq: "setUserSavedData_remote = setUserSavedData"
  unfolding fun_eq_iff setUserSavedData_remote_def setUserSavedData_def getSavedStore_remote_eq setSavedStore_remote_eq emitSavedChange_remote_eq
  by simp

lemma generateCollectionId_remote_eq: "generateCollectionId_remote = generateCollectionId"
  unfolding fun_eq_iff generateCollectionId_remote_def generateCollectionId_def COLLECTION_PREFIX_remote_eq
  by simp

lemma getSavedPlaceIds_remote_eq: "getSavedPlaceIds_remote = getSavedPlaceIds"
  unfolding fun_eq_iff getSavedPlaceIds_remote_def getSavedPlaceIds_def getUserSavedData_remote_eq
  by simp

lemma isPlaceSaved_remote_eq: "isPlaceSaved_remote = isPlaceSaved"
  unfolding fun_eq_iff isPlaceSaved_remote_def isPlaceSaved_def getSavedPlaceIds_remote_eq
  by simp

lemma savePlace_remote_eq: "savePlace_remote = savePlace"
  unfolding fun_eq_iff savePlace_remote_def savePlace_def getUserSavedData_remote_eq setUserSavedData_remote_eq
  by simp

lemma removeSavedPlace_remote_eq: "removeSavedPlace_remote = removeSavedPlace"
  unfolding fun_eq_iff removeSavedPlace_remote_def removeSavedPlace_def getUserSavedData_remote_eq setUserSavedData_remote_eq
  by simp

lemma getCollections_remote_eq: "getCollections_remote = getCollections"
  unfolding fun_eq_iff getCollections_remote_def getCollections_def getUserSavedData_remote_eq
  by simp

lemma createCollection_remote_eq: "createCollection_remote = createCollection"
  unfolding fun_eq_iff createCollection_remote_def createCollection_def getUserSavedData_remote_eq setUserSavedData_remote_eq generateCollectionId_remote_eq
  by simp

lemma deleteCollection_remote_eq: "deleteCollection_remote = deleteCollection"
  unfolding fun_eq_iff deleteCollection_remote_def deleteCollection_def getUserSavedData_remote_eq setUserSavedData_remote_eq
  by simp

lemma addPlaceToCollection_remote_eq: "addPlaceToCollection_remote = addPlaceToCollection"
  unfolding fun_eq_iff addPlaceToCollection_remote_def addPlaceToCollection_def getUserSavedData_remote_eq setUserSavedData_remote_eq
  by simp

lemma removePlaceFromCollection_remote_eq:
  "removePlaceFromCollection_remote = removePlaceFromCollection"
  unfolding fun_eq_iff removePlaceFromCollection_remote_def removePlaceFromCollection_def getUserSavedData_remote_eq setUserSavedData_remote_eq
  by simp

lemma getCollectionPlaceIds_remote_eq: "getCollectionPlaceIds_remote = getCollectionPlaceIds"
  unfolding fun_eq_iff getCollectionPlaceIds_remote_def getCollectionPlaceIds_def getUserSavedData_remote_eq
  by simp

lemma isPlaceInCollection_remote_eq: "isPlaceInCollection_remote = isPlaceInCollection"
  unfolding fun_eq_iff isPlaceInCollection_remote_def isPlaceInCollection_def getCollectionPlaceIds_remote_eq
  by simp

text \<open>
  C1. The saved-places layer exists twice, in the module that keeps accounts in
  \<^verbatim>\<open>localStorage\<close> and in the module built on the remote auth service, and the two
  behave alike: for every user argument, every world and every argument, each of the
  eleven exported operations returns (or throws) the same and leaves the same world in
  both modules; for \<^verbatim>\<open>createCollection\<close>, given the same clock and random text.
\<close>

theorem saved_layers_agree:
  "getSavedPlaceIds_remote user w = getSavedPlaceIds user w
   \<and> isPlaceSaved_remote user placeId w = isPlaceSaved user placeId w
   \<and> savePlace_remote user placeId w = savePlace user placeId w
   \<and> removeSavedPlace_remote user placeId w = removeSavedPlace user placeId w
   \<and> getCollections_remote user w = getCollections user w
   \<and> createCollection_remote user name stamp rnd w = createCollection user name stamp rnd w
   \<and> deleteCollection_remote user collectionId w = deleteCollection user collectionId w
   \<and> addPlaceToCollection_remote user collectionId placeId w
       = addPlaceToCollection user collectionId placeId w
   \<and> removePlaceFromCollection_remote user collectionId placeId w
       = removePlaceFromCollection user collectionId placeId w
   \<and> getCollectionPlaceIds_remote user collectionId w = getCollectionPlaceIds user collectionId w
   \<and> isPlaceInCollection_remote user collectionId placeId w
       = isPlaceInCollection user collectionId placeId w"
  by (simp add: getSavedPlaceIds_remote_eq isPlaceSaved_remote_eq savePlace_remote_eq
      removeSavedPlace_remote_eq getCollections_remote_eq createCollection_remote_eq
      deleteCollection_remote_eq addPlaceToCollection_remote_eq
      removePlaceFromCollection_remote_eq getCollectionPlaceIds_remote_eq
      isPlaceInCollection_remote_eq)

subsection \<open>Where the remote module keeps the saved places\<close>

lemma no_remote_call_after_write:
  "remote_calls (snd (setUserSavedData u d w)) = remote_calls w"
  using setUserSavedData_effect [of u d w]
  by (auto simp: emitSavedChange_def setSavedStore_def)

lemma no_remote_call:
  shows "remote_calls (snd (savePlace u p w)) = remote_calls w"
    and "remote_calls (snd (removeSavedPlace u p w)) = remote_calls w"
    and "remote_calls (snd (createCollection u name stamp rnd w)) = remote_calls w"
    and "remote_calls (snd (deleteCollection u c w)) = remote_calls w"
    and "remote_calls (snd (addPlaceToCollection u c p w)) = remote_calls w"
    and "remote_calls (snd (removePlaceFromCollection u c p w)) = remote_calls w"
proof -
  show "remote_calls (snd (savePlace u p w)) = remote_calls w"
    by (cases rule: savePlace_cases [of u p w]) (use no_remote_call_after_write in auto)
  show "remote_calls (snd (removeSavedPlace u p w)) = remote_calls w"
    by (cases rule: removeSavedPlace_cases [of u p w]) (use no_remote_call_after_write in auto)
  show "remote_calls (snd (createCollection u name stamp rnd w)) = remote_calls w"
    by (cases rule: createCollection_cases [of u name stamp rnd w]) (use no_remote_call_after_write in auto)
  show "remote_calls (snd (deleteCollection u c w)) = remote_calls w"
    by (cases rule: deleteCollection_cases [of u c w]) (use no_remote_call_after_write in auto)
  show "remote_calls (snd (addPlaceToCollection u c p w)) = remote_calls w"
    by (cases rule: addPlaceToCollection_cases [of u c p w]) (use no_remote_call_after_write in auto)
  show "remote_calls (snd (removePlaceFromCollection u c p w)) = remote_calls w"
    by (cases rule: removePlaceFromCollection_cases [of u c p w]) (use no_remote_call_after_write in auto)
qed

text \<open>
  C2, as amended. In the module built on the remote auth service the per-user saved-items
  store is persisted in the browser's \<^verbatim>\<open>localStorage\<close>, under the key
  \<^verbatim>\<open>seamline_saved_places\<close> and in the shape the local module uses (the functions that
  read and write it are the same functions); no saved-data operation sends a request to
  the remote service.
\<close>

theorem remote_module_persists_locally:
  "getSavedStore_remote w =
     (case localStorage w ''seamline_saved_places'' of ObjectText ps \<Rightarrow> ps | _ \<Rightarrow> [])
   \<and> setSavedStore_remote store w =
       w\<lparr>localStorage := (localStorage w)(''seamline_saved_places'' := ObjectText store)\<rparr>
   \<and> getSavedStore_remote w = getSavedStore w
   \<and> setSavedStore_remote store w = setSavedStore store w
   \<and> getUserSavedData_remote user w = getUserSavedData user w
   \<and> setUserSavedData_remote user d w = setUserSavedData user d w
   \<and> remote_calls (snd (setUserSavedData_remote user d w)) = remote_calls w
   \<and> remote_calls (snd (savePlace_remote user placeId w)) = remote_calls w
   \<and> remote_calls (snd (removeSavedPlace_remote user placeId w)) = remote_calls w
   \<and> remote_calls (snd (createCollection_remote user name stamp rnd w)) = remote_calls w
   \<and> remote_calls (snd (deleteCollection_remote user collectionId w)) = remote_calls w
   \<and> remote_calls (snd (addPlaceToCollection_remote user collectionId placeId w)) = remote_calls w
   \<and> remote_calls (snd (removePlaceFromCollection_remote user collectionId placeId w))
       = remote_calls w"
proof -
  have a: "getSavedStore_remote w =
     (case localStorage w ''seamline_saved_places'' of ObjectText ps \<Rightarrow> ps | _ \<Rightarrow> [])"
    by (simp add: getSavedStore_remote_def parseJSON_remote_def SAVED_KEY_remote_def
        split: raw_item.splits)
  have b: "setSavedStore_remote store w =
       w\<lparr>localStorage := (localStorage w)(''seamline_saved_places'' := ObjectText store)\<rparr>"
    by (simp add: setSavedStore_remote_def SAVED_KEY_remote_def)
  have c: "remote_calls (snd (setUserSavedData user d w)) = remote_calls w"
    by (rule no_remote_call_after_write)
  show ?thesis
    unfolding savePlace_remote_eq removeSavedPlace_remote_eq createCollection_remote_eq
      deleteCollection_remote_eq addPlaceToCollection_remote_eq
      removePlaceFromCollection_remote_eq setUserSavedData_remote_eq getUserSavedData_remote_eq
    using a b c no_remote_call
    by (simp add: getSavedStore_remote_eq setSavedStore_remote_eq)
qed

text \<open>Saving a place through the remote module on an empty browser: the place is in
  \<^verbatim>\<open>localStorage\<close> afterwards and no request has gone out, whereas logging out does send
  one.\<close>

theorem remote_module_counterexample:
  "fst (savePlace_remote bob (Val (JStr ''5'')) world0) = Inr [JStr ''5'']
   \<and> localStorage (snd (savePlace_remote bob (Val (JStr ''5'')) world0)) ''seamline_saved_places''
       = ObjectText [(''bob@example.org'',
                      JObj [(''items'', JArr [JStr ''5'']), (''collections'', JObj [])])]
   \<and> remote_calls (snd (savePlace_remote bob (Val (JStr ''5'')) world0)) = []
   \<and> remote_calls (logoutUser_remote world0) = [AuthSignOut]"
  by (simp add: savePlace_remote_def getUserSavedData_remote_def setUserSavedData_remote_def
      getSavedStore_remote_def setSavedStore_remote_def parseJSON_remote_def
      emitSavedChange_remote_def SAVED_KEY_remote_def normalizeEntry_remote_def user_key_def
      bob_def world0_def obj_member_def obj_assign_def obj_set_def json_of_data_def
      String_json_def Object_prototype_names_def
      Set_from_def set_add_def logoutUser_remote_def Let_def)


end
